theory Spec2Isabelle
  imports Main
begin

section \<open>Twitter/X video downloader: the URL validator\<close>

text \<open>
  The validator of \<^verbatim>\<open>twitter_downloader.py\<close> is
  \<^verbatim>\<open>bool(re.match(patron, url))\<close> with
  \<^verbatim>\<open>patron = r"https?://(www\.)?(twitter\.com|x\.com)/.+/status/\d+"\<close>.
  The pattern is kept as data (a regular expression over three kinds of atoms) and
  \<^verbatim>\<open>re.match\<close> is a matcher that runs over the input from its first character.

  Strings are lists of 8-bit characters. In that range the class \<^verbatim>\<open>\d\<close> is the ten ASCII
  digits and \<^verbatim>\<open>.\<close> (no DOTALL flag) is every character but the line feed.
\<close>

datatype atomo =
    Car char      \<comment> \<open>a literal character\<close>
  | Punto         \<comment> \<open>\<^verbatim>\<open>.\<close>\<close>
  | Digito        \<comment> \<open>\<^verbatim>\<open>\d\<close>\<close>

datatype rexp =
    Vacio                 \<comment> \<open>matches nothing\<close>
  | Eps                   \<comment> \<open>matches the empty string\<close>
  | Atomo atomo
  | Alt rexp rexp         \<comment> \<open>\<^verbatim>\<open>a|b\<close>\<close>
  | Sec rexp rexp         \<comment> \<open>\<^verbatim>\<open>ab\<close>\<close>
  | Estrella rexp         \<comment> \<open>\<^verbatim>\<open>a*\<close>\<close>

definition es_digito :: "char \<Rightarrow> bool" where
  "es_digito c = (48 \<le> (of_char c :: nat) \<and> (of_char c :: nat) \<le> 57)"

fun acepta :: "atomo \<Rightarrow> char \<Rightarrow> bool" where
  "acepta (Car d) c = (c = d)"
| "acepta Punto c = (c \<noteq> CHR 0x0A)"
| "acepta Digito c = es_digito c"

text \<open>\<^verbatim>\<open>a?\<close>, \<^verbatim>\<open>a+\<close> and a literal word, in terms of the constructors.\<close>

definition Opc :: "rexp \<Rightarrow> rexp" where
  "Opc r = Alt r Eps"

definition Mas :: "rexp \<Rightarrow> rexp" where
  "Mas r = Sec r (Estrella r)"

fun Lit :: "string \<Rightarrow> rexp" where
  "Lit [] = Eps"
| "Lit (c # cs) = Sec (Atomo (Car c)) (Lit cs)"

fun anulable :: "rexp \<Rightarrow> bool" where
  "anulable Vacio = False"
| "anulable Eps = True"
| "anulable (Atomo a) = False"
| "anulable (Alt r s) = (anulable r \<or> anulable s)"
| "anulable (Sec r s) = (anulable r \<and> anulable s)"
| "anulable (Estrella r) = True"

fun deriv :: "char \<Rightarrow> rexp \<Rightarrow> rexp" where
  "deriv c Vacio = Vacio"
| "deriv c Eps = Vacio"
| "deriv c (Atomo a) = (if acepta a c then Eps else Vacio)"
| "deriv c (Alt r s) = Alt (deriv c r) (deriv c s)"
| "deriv c (Sec r s) =
     (if anulable r then Alt (Sec (deriv c r) s) (deriv c s) else Sec (deriv c r) s)"
| "deriv c (Estrella r) = Sec (deriv c r) (Estrella r)"

text \<open>
  \<^verbatim>\<open>re.match(r, s)\<close> succeeds when the pattern matches some initial segment of \<open>s\<close>;
  the rest of the string is free.
\<close>

fun re_match :: "rexp \<Rightarrow> string \<Rightarrow> bool" where
  "re_match r [] = anulable r"
| "re_match r (c # cs) = (anulable r \<or> re_match (deriv c r) cs)"

definition patron :: rexp where
  "patron =
     Sec (Lit ''http'') (Sec (Opc (Atomo (Car CHR ''s''))) (Sec (Lit ''://'')
     (Sec (Opc (Lit ''www.''))
     (Sec (Alt (Lit ''twitter.com'') (Lit ''x.com''))
     (Sec (Lit ''/'') (Sec (Mas (Atomo Punto))
     (Sec (Lit ''/status/'') (Mas (Atomo Digito)))))))))"

definition es_url_valida :: "string \<Rightarrow> bool" where
  "es_url_valida url = re_match patron url"

subsection \<open>What the pattern denotes\<close>

definition conc :: "string set \<Rightarrow> string set \<Rightarrow> string set" where
  "conc A B = {u @ v | u v. u \<in> A \<and> v \<in> B}"

inductive_set estrella :: "string set \<Rightarrow> string set" for A :: "string set" where
  estrella_nil: "[] \<in> estrella A"
| estrella_paso: "u \<in> A \<Longrightarrow> v \<in> estrella A \<Longrightarrow> u @ v \<in> estrella A"

fun lang :: "rexp \<Rightarrow> string set" where
  "lang Vacio = {}"
| "lang Eps = {[]}"
| "lang (Atomo a) = {[c] | c. acepta a c}"
| "lang (Alt r s) = lang r \<union> lang s"
| "lang (Sec r s) = conc (lang r) (lang s)"
| "lang (Estrella r) = estrella (lang r)"

text \<open>
  The shape the specification gives in words:
  \<^verbatim>\<open>http(s)://[www.]{twitter.com|x.com}/<path>/status/<numeric id>\<close>, anchored at the
  start, with nothing required of what follows the identifier.
\<close>

definition forma_url :: "string \<Rightarrow> bool" where
  "forma_url s = (\<exists>esquema www host camino ident resto.
      s = esquema @ ''://'' @ www @ host @ ''/'' @ camino @ ''/status/'' @ ident @ resto \<and>
      (esquema = ''http'' \<or> esquema = ''https'') \<and>
      (www = [] \<or> www = ''www.'') \<and>
      (host = ''twitter.com'' \<or> host = ''x.com'') \<and>
      camino \<noteq> [] \<and> CHR 0x0A \<notin> set camino \<and>
      ident \<noteq> [] \<and> list_all es_digito ident)"

section \<open>Quality selectors\<close>

text \<open>
  \<^verbatim>\<open>calidades.get(cal_opcion, "best")\<close> of the interactive menu and the
  \<^verbatim>\<open>{...}.get(calidad, "best")\<close> of the download operation: a dictionary literal
  becomes an association list, \<^verbatim>\<open>get\<close> with a default becomes a lookup.
\<close>

definition dict_get :: "(string \<times> string) list \<Rightarrow> string \<Rightarrow> string \<Rightarrow> string" where
  "dict_get d k porDefecto = (case map_of d k of None \<Rightarrow> porDefecto | Some v \<Rightarrow> v)"

definition calidades :: "(string \<times> string) list" where
  "calidades = [(''1'', ''best''), (''2'', ''720''), (''3'', ''480''), (''4'', ''360''),
                (''5'', ''worst'')]"

definition formatos :: "(string \<times> string) list" where
  "formatos = [(''best'', ''best''), (''worst'', ''worst''),
               (''720'', ''best[height<=720]''),
               (''480'', ''best[height<=480]''),
               (''360'', ''best[height<=360]'')]"

definition calidad_de :: "string \<Rightarrow> string" where
  "calidad_de cal_opcion = dict_get calidades cal_opcion ''best''"

definition formato_de :: "string \<Rightarrow> string" where
  "formato_de calidad = dict_get formatos calidad ''best''"

section \<open>Text helpers\<close>

text \<open>
  \<^verbatim>\<open>str.strip()\<close>, \<^verbatim>\<open>str.lower()\<close>, \<^verbatim>\<open>x or y\<close> on strings, \<^verbatim>\<open>str(n)\<close> on integers,
  \<^verbatim>\<open>', '.join\<close> and \<^verbatim>\<open>os.path.join\<close> (POSIX), on characters below 256.
\<close>

definition es_espacio :: "char \<Rightarrow> bool" where
  "es_espacio c = ((of_char c :: nat) \<in> {9, 10, 11, 12, 13, 28, 29, 30, 31, 32, 133, 160})"

definition strip :: "string \<Rightarrow> string" where
  "strip s = rev (dropWhile es_espacio (rev (dropWhile es_espacio s)))"

definition minuscula :: "char \<Rightarrow> char" where
  "minuscula c =
     (let n = (of_char c :: nat)
      in if (65 \<le> n \<and> n \<le> 90) \<or> (192 \<le> n \<and> n \<le> 222 \<and> n \<noteq> 215)
         then char_of (n + 32) else c)"

definition lower :: "string \<Rightarrow> string" where
  "lower s = map minuscula s"

definition o_bien :: "string \<Rightarrow> string \<Rightarrow> string" where
  "o_bien x y = (if x = [] then y else x)"

fun str_nat :: "nat \<Rightarrow> string" where
  "str_nat n =
     (if n < 10 then [char_of (48 + n)] else str_nat (n div 10) @ [char_of (48 + n mod 10)])"

declare str_nat.simps [simp del]

definition str_int :: "int \<Rightarrow> string" where
  "str_int i = (if i < 0 then CHR ''-'' # str_nat (nat (- i)) else str_nat (nat i))"

fun join :: "string \<Rightarrow> string list \<Rightarrow> string" where
  "join sep [] = []"
| "join sep [x] = x"
| "join sep (x # y # ys) = x @ sep @ join sep (y # ys)"

definition path_join :: "string \<Rightarrow> string \<Rightarrow> string" where
  "path_join a b =
     (if b \<noteq> [] \<and> hd b = CHR ''/'' then b
      else if a = [] \<or> last a = CHR ''/'' then a @ b
      else a @ ''/'' @ b)"

section \<open>The file system and \<^verbatim>\<open>Path.mkdir(parents=True, exist_ok=True)\<close>\<close>

text \<open>
  A path is the list of its components, innermost first, so that the parent of a path is
  its tail; the empty path is the directory the path is relative to, which exists. An
  absolute path is anchored at a component \<open>/\<close>. Empty components and \<open>.\<close> are dropped, as
  \<^verbatim>\<open>pathlib\<close> does. The file system maps a path to the kind of node found there: a
  directory or a regular file.

  The components are plain names, compared as text: the model covers the two ways in which
  \<^verbatim>\<open>mkdir\<close> fails on account of what is on the disk (the path is a regular file, or lies
  below one). What an operating system refuses besides (a component \<open>..\<close> or a link to
  resolve, a name that is too long or holds a forbidden character, a missing permission) is
  not described, so the properties below are conditional on the outcome of \<^verbatim>\<open>mkdir\<close>:
  they say what follows once it has succeeded or failed, and none promises that it succeeds.
\<close>

datatype nodo = Carpeta | Fichero

type_synonym ruta = "string list"

type_synonym fs = "ruta \<Rightarrow> nodo option"

datatype exc =
    EOFError              \<comment> \<open>\<^verbatim>\<open>input()\<close> at the end of the input\<close>
  | FileExistsError
  | FileNotFoundError
  | NotADirectoryError
  | CalledProcessError    \<comment> \<open>\<^verbatim>\<open>subprocess.check_call\<close> of the installer\<close>

fun trocear :: "string \<Rightarrow> string list" where
  "trocear [] = [[]]"
| "trocear (c # cs) =
     (if c = CHR ''/'' then [] # trocear cs
      else (case trocear cs of [] \<Rightarrow> [[c]] | p # ps \<Rightarrow> (c # p) # ps))"

definition ruta_de :: "string \<Rightarrow> ruta" where
  "ruta_de s =
     rev (filter (\<lambda>p. p \<noteq> [] \<and> p \<noteq> ''.'') (trocear s)) @
     (if s \<noteq> [] \<and> hd s = CHR ''/'' then [''/''] else [])"

fun stat :: "fs \<Rightarrow> ruta \<Rightarrow> exc + nodo" where
  "stat f [] = Inr Carpeta"
| "stat f (c # padre) =
     (case stat f padre of
        Inl e \<Rightarrow> Inl e
      | Inr Fichero \<Rightarrow> Inl NotADirectoryError
      | Inr Carpeta \<Rightarrow>
          (case f (c # padre) of None \<Rightarrow> Inl FileNotFoundError | Some k \<Rightarrow> Inr k))"

definition is_dir :: "fs \<Rightarrow> ruta \<Rightarrow> bool" where
  "is_dir f p = (stat f p = Inr Carpeta)"

fun os_mkdir :: "fs \<Rightarrow> ruta \<Rightarrow> exc + fs" where
  "os_mkdir f [] = Inl FileExistsError"
| "os_mkdir f (c # padre) =
     (case stat f padre of
        Inl e \<Rightarrow> Inl e
      | Inr Fichero \<Rightarrow> Inl NotADirectoryError
      | Inr Carpeta \<Rightarrow>
          (case f (c # padre) of
             Some k \<Rightarrow> Inl FileExistsError
           | None \<Rightarrow> Inr (f(c # padre \<mapsto> Carpeta))))"

text \<open>
  \<^verbatim>\<open>Path.mkdir\<close>: try \<^verbatim>\<open>os.mkdir\<close>; on \<^verbatim>\<open>FileNotFoundError\<close> create the parent the
  same way and then the path itself without \<^verbatim>\<open>parents\<close>; on any other \<^verbatim>\<open>OSError\<close>
  re-raise unless \<^verbatim>\<open>exist_ok\<close> holds and the path is a directory.
\<close>

definition mkdir_sin_padres :: "fs \<Rightarrow> ruta \<Rightarrow> exc + fs" where
  "mkdir_sin_padres f p =
     (case os_mkdir f p of
        Inr f' \<Rightarrow> Inr f'
      | Inl FileNotFoundError \<Rightarrow> Inl FileNotFoundError
      | Inl e \<Rightarrow> if is_dir f p then Inr f else Inl e)"

fun mkdir :: "fs \<Rightarrow> ruta \<Rightarrow> exc + fs" where
  "mkdir f [] =
     (case os_mkdir f [] of
        Inr f' \<Rightarrow> Inr f'
      | Inl FileNotFoundError \<Rightarrow> Inl FileNotFoundError
      | Inl e \<Rightarrow> if is_dir f [] then Inr f else Inl e)"
| "mkdir f (c # padre) =
     (case os_mkdir f (c # padre) of
        Inr f' \<Rightarrow> Inr f'
      | Inl FileNotFoundError \<Rightarrow>
          (case mkdir f padre of
             Inl e \<Rightarrow> Inl e
           | Inr f' \<Rightarrow> mkdir_sin_padres f' (c # padre))
      | Inl e \<Rightarrow> if is_dir f (c # padre) then Inr f else Inl e)"

text \<open>A path and its ancestors, nearest first.\<close>

fun ancestros :: "ruta \<Rightarrow> ruta list" where
  "ancestros [] = [[]]"
| "ancestros (c # padre) = (c # padre) # ancestros padre"

section \<open>The extraction library, the console and the world\<close>

text \<open>
  \<^verbatim>\<open>yt_dlp\<close> is not part of the program: it is a parameter. A call of
  \<^verbatim>\<open>extract_info\<close> either returns the metadata or raises; what it raises is either the
  library's \<^verbatim>\<open>DownloadError\<close> or some other exception derived from \<^verbatim>\<open>Exception\<close>, each
  with its message. \<^verbatim>\<open>prepare_filename\<close> derives the name of the output file from the
  options and the metadata. Signals that are not derived from \<^verbatim>\<open>Exception\<close>
  (\<^verbatim>\<open>KeyboardInterrupt\<close>, \<^verbatim>\<open>SystemExit\<close>) are outside the model.
\<close>

datatype ydl_exc = DownloadError string | OtraExcepcion string

record formato =
  height :: "int option"

record info =
  title :: "string option"
  uploader :: "string option"
  duration :: "string option"
  upload_date :: "string option"
  formats :: "formato list"

record opciones =
  format :: "string option"
  outtmpl :: "string option"
  quiet :: bool
  no_warnings :: bool
  progress :: "bool option"

record peticion =
  opts :: opciones
  url :: string
  download :: bool

record entorno =
  extract_info :: "peticion \<Rightarrow> ydl_exc + info"
  prepare_filename :: "opciones \<Rightarrow> info \<Rightarrow> string"
  abspath :: "string \<Rightarrow> string"
  importable :: bool     \<comment> \<open>\<^verbatim>\<open>import yt_dlp\<close> succeeds when the program starts\<close>
  pip_ok :: bool         \<comment> \<open>the installer ends with status 0\<close>

text \<open>Every \<^verbatim>\<open>print\<close> of the source, by line.\<close>

datatype mensaje =
    MInstalando                 \<comment> \<open>20\<close>
  | MInstalado                  \<comment> \<open>22\<close>
  | MDescargando                \<comment> \<open>63\<close>
  | MUrl string                 \<comment> \<open>64\<close>
  | MDestino string             \<comment> \<open>65\<close>
  | MCalidad string             \<comment> \<open>66\<close>
  | MExito                      \<comment> \<open>72\<close>
  | MArchivo string             \<comment> \<open>73\<close>
  | MErrorDescarga string       \<comment> \<open>76\<close>
  | MSugerencia                 \<comment> \<open>77: the tweet must be public and hold a video\<close>
  | MErrorInesperado string     \<comment> \<open>80\<close>
  | MObteniendo                 \<comment> \<open>88\<close>
  | MCabecera                   \<comment> \<open>98\<close>
  | MTitulo string              \<comment> \<open>99\<close>
  | MUsuario string             \<comment> \<open>100\<close>
  | MDuracion string            \<comment> \<open>101\<close>
  | MFecha string               \<comment> \<open>102\<close>
  | MCalidades string           \<comment> \<open>110: the text after \<^verbatim>\<open>Calidades: \<close>\<close>
  | MNoInfo string              \<comment> \<open>112\<close>
  | MRaya                       \<comment> \<open>117, 119\<close>
  | MNombre                     \<comment> \<open>118\<close>
  | MVacio                      \<comment> \<open>120\<close>
  | MQueDeseas                  \<comment> \<open>123\<close>
  | MOp1 | MOp2 | MOp3 | MOp0   \<comment> \<open>124 to 127\<close>
  | MHastaLuego                 \<comment> \<open>132\<close>
  | MNoTwitterReintenta         \<comment> \<open>138\<close>
  | MCalidadOpciones            \<comment> \<open>141\<close>
  | MNoTwitter                  \<comment> \<open>152\<close>
  | MIngresa                    \<comment> \<open>157\<close>
  | MOmitida                    \<comment> \<open>166: invalid URL, omitted\<close>
  | MSinUrls                    \<comment> \<open>169\<close>
  | MDescargandoN nat           \<comment> \<open>173\<close>
  | MProgreso nat nat           \<comment> \<open>175: \<^verbatim>\<open>[i/total]\<close>\<close>
  | MOpcionNoValida             \<comment> \<open>179\<close>
  | MUso                        \<comment> \<open>195\<close>

text \<open>The prompts of \<^verbatim>\<open>input\<close>, by line.\<close>

datatype aviso =
    AOpcion           \<comment> \<open>129\<close>
  | AUrl              \<comment> \<open>136, 150\<close>
  | ACalidad          \<comment> \<open>142\<close>
  | ACarpetaActual    \<comment> \<open>146: \<^verbatim>\<open>Carpeta destino (Enter = carpeta actual): \<close>\<close>
  | ALote             \<comment> \<open>160\<close>
  | ACarpetaLote      \<comment> \<open>172: \<^verbatim>\<open>Carpeta destino (Enter = 'descargas_twitter'): \<close>\<close>

datatype evento =
    Imprime mensaje
  | Pregunta aviso
  | Extrae peticion     \<comment> \<open>a call of \<^verbatim>\<open>extract_info\<close>\<close>
  | Pip                 \<comment> \<open>the run of the installer\<close>

record mundo =
  archivos :: fs
  entrada :: "string list"     \<comment> \<open>the lines still to be read from standard input\<close>
  salida :: "evento list"      \<comment> \<open>what has happened so far, oldest first\<close>

definition emite :: "evento \<Rightarrow> mundo \<Rightarrow> mundo" where
  "emite e w = w\<lparr>salida := salida w @ [e]\<rparr>"

definition imprime :: "mensaje list \<Rightarrow> mundo \<Rightarrow> mundo" where
  "imprime ms w = w\<lparr>salida := salida w @ map Imprime ms\<rparr>"

text \<open>\<^verbatim>\<open>input(prompt)\<close>: writes the prompt, then reads a line or raises at the end.\<close>

definition py_input :: "aviso \<Rightarrow> mundo \<Rightarrow> (exc + string) \<times> mundo" where
  "py_input a w =
     (case entrada w of
        [] \<Rightarrow> (Inl EOFError, emite (Pregunta a) w)
      | l # ls \<Rightarrow> (Inr l, (emite (Pregunta a) w)\<lparr>entrada := ls\<rparr>))"

section \<open>The operations\<close>

definition instalar_ytdlp :: "entorno \<Rightarrow> mundo \<Rightarrow> (exc + bool) \<times> mundo" where
  "instalar_ytdlp E w =
     (if importable E then (Inr True, w)
      else
        (let w1 = emite Pip (imprime [MInstalando] w)
         in if pip_ok E then (Inr True, imprime [MInstalado] w1)
            else (Inl CalledProcessError, w1)))"

definition plantilla :: string where
  "plantilla = ''%(uploader)s_%(id)s.%(ext)s''"

definition opciones_descarga :: "string \<Rightarrow> string \<Rightarrow> opciones" where
  "opciones_descarga carpeta_destino calidad =
     \<lparr>format = Some (formato_de calidad),
      outtmpl = Some (path_join carpeta_destino plantilla),
      quiet = False, no_warnings = False, progress = Some True\<rparr>"

text \<open>
  \<^verbatim>\<open>descargar_video\<close>: the directory is made before the \<^verbatim>\<open>try\<close>, so what
  \<^verbatim>\<open>mkdir\<close> raises leaves the function; both handlers return \<^verbatim>\<open>None\<close>.
\<close>

definition descargar_video ::
  "entorno \<Rightarrow> string \<Rightarrow> string \<Rightarrow> string \<Rightarrow> mundo \<Rightarrow> (exc + string option) \<times> mundo" where
  "descargar_video E u carpeta_destino calidad w =
     (case mkdir (archivos w) (ruta_de carpeta_destino) of
        Inl e \<Rightarrow> (Inl e, w)
      | Inr f' \<Rightarrow>
          (let ops = opciones_descarga carpeta_destino calidad;
               w1 = imprime [MDescargando, MUrl u, MDestino (abspath E carpeta_destino),
                             MCalidad calidad] (w\<lparr>archivos := f'\<rparr>);
               pet = \<lparr>opts = ops, url = u, download = True\<rparr>;
               w2 = emite (Extrae pet) w1
           in case extract_info E pet of
                Inr meta \<Rightarrow>
                  (let nombre = prepare_filename E ops meta
                   in (Inr (Some nombre), imprime [MExito, MArchivo nombre] w2))
              | Inl (DownloadError m) \<Rightarrow>
                  (Inr None, imprime [MErrorDescarga m, MSugerencia] w2)
              | Inl (OtraExcepcion m) \<Rightarrow>
                  (Inr None, imprime [MErrorInesperado m] w2)))"

text \<open>\<^verbatim>\<open>str(e)\<close> of what the library raised.\<close>

fun str_exc :: "ydl_exc \<Rightarrow> string" where
  "str_exc (DownloadError m) = m"
| "str_exc (OtraExcepcion m) = m"

definition opciones_info :: opciones where
  "opciones_info =
     \<lparr>format = None, outtmpl = None, quiet = True, no_warnings = True, progress = None\<rparr>"

definition get_o :: "string option \<Rightarrow> string" where
  "get_o v = (case v of None \<Rightarrow> ''N/A'' | Some x \<Rightarrow> x)"

text \<open>
  The loop over \<^verbatim>\<open>formatos\<close>: a height that is absent or zero is falsy and skipped; the
  set of the others is kept as a list without repetitions.
\<close>

fun resoluciones_de :: "formato list \<Rightarrow> int list \<Rightarrow> int list" where
  "resoluciones_de [] rs = rs"
| "resoluciones_de (f # fs) rs =
     (case height f of
        None \<Rightarrow> resoluciones_de fs rs
      | Some h \<Rightarrow> if h \<noteq> 0 then resoluciones_de fs (List.insert h rs)
                  else resoluciones_de fs rs)"

definition linea_calidades :: "int list \<Rightarrow> string" where
  "linea_calidades rs = join '', '' (map (\<lambda>r. str_int r @ ''p'') (rev (sort rs)))"

definition obtener_info :: "entorno \<Rightarrow> string \<Rightarrow> mundo \<Rightarrow> (exc + unit) \<times> mundo" where
  "obtener_info E u w =
     (let w1 = imprime [MObteniendo] w;
          pet = \<lparr>opts = opciones_info, url = u, download = False\<rparr>;
          w2 = emite (Extrae pet) w1
      in case extract_info E pet of
           Inr meta \<Rightarrow>
             (let w3 = imprime [MCabecera, MTitulo (get_o (title meta)),
                                MUsuario (get_o (uploader meta)),
                                MDuracion (get_o (duration meta)),
                                MFecha (get_o (upload_date meta))] w2;
                  resoluciones = resoluciones_de (formats meta) []
              in if resoluciones \<noteq> []
                 then (Inr (), imprime [MCalidades (linea_calidades resoluciones)] w3)
                 else (Inr (), w3))
         | Inl x \<Rightarrow> (Inr (), imprime [MNoInfo (str_exc x)] w2))"

section \<open>The interactive menu and the entry point\<close>

text \<open>
  The inner loop of option 3 (lines 159 to 166): read a line, stop at \<open>listo\<close> in any
  letter case, keep a valid URL, report a non-empty invalid line, pass over an empty one.
\<close>

function recoger :: "string list \<Rightarrow> mundo \<Rightarrow> (exc + string list) \<times> mundo" where
  "recoger urls w =
     (case py_input ALote w of
        (Inl e, w1) \<Rightarrow> (Inl e, w1)
      | (Inr l, w1) \<Rightarrow>
          (let u = strip l
           in if lower u = ''listo'' then (Inr urls, w1)
              else if es_url_valida u then recoger (urls @ [u]) w1
              else if u \<noteq> [] then recoger urls (imprime [MOmitida] w1)
              else recoger urls w1))"
  by pat_completeness auto
termination
  by (relation "measure (\<lambda>(urls, w). length (entrada w))")
     (auto simp: py_input_def emite_def imprime_def split: list.splits)

declare recoger.simps [simp del]

text \<open>
  The \<^verbatim>\<open>for\<close> loop of option 3 (lines 174 to 176); \<^verbatim>\<open>descargar_video(url, carpeta)\<close>
  leaves the quality at the default of the signature, \<open>best\<close>.
\<close>

fun descargar_lote ::
  "entorno \<Rightarrow> string \<Rightarrow> nat \<Rightarrow> nat \<Rightarrow> string list \<Rightarrow> mundo \<Rightarrow> (exc + unit) \<times> mundo" where
  "descargar_lote E carpeta n i [] w = (Inr (), w)"
| "descargar_lote E carpeta n i (u # us) w =
     (case descargar_video E u carpeta ''best'' (imprime [MProgreso i n] w) of
        (Inl e, w1) \<Rightarrow> (Inl e, w1)
      | (Inr r, w1) \<Rightarrow> descargar_lote E carpeta n (Suc i) us w1)"

datatype paso = Sigue | Sale

definition opcion_1 :: "entorno \<Rightarrow> mundo \<Rightarrow> (exc + paso) \<times> mundo" where
  "opcion_1 E w =
     (case py_input AUrl w of
        (Inl e, w1) \<Rightarrow> (Inl e, w1)
      | (Inr l, w1) \<Rightarrow>
          (let u = strip l
           in if \<not> es_url_valida u then (Inr Sigue, imprime [MNoTwitterReintenta] w1)
              else
                (case py_input ACalidad (imprime [MCalidadOpciones] w1) of
                   (Inl e, w2) \<Rightarrow> (Inl e, w2)
                 | (Inr lc, w2) \<Rightarrow>
                     (let calidad = calidad_de (strip lc)
                      in case py_input ACarpetaActual w2 of
                           (Inl e, w3) \<Rightarrow> (Inl e, w3)
                         | (Inr ld, w3) \<Rightarrow>
                             (let carpeta = o_bien (strip ld) ''descargas_twitter''
                              in case descargar_video E u carpeta calidad w3 of
                                   (Inl e, w4) \<Rightarrow> (Inl e, w4)
                                 | (Inr r, w4) \<Rightarrow> (Inr Sigue, w4))))))"

definition opcion_2 :: "entorno \<Rightarrow> mundo \<Rightarrow> (exc + paso) \<times> mundo" where
  "opcion_2 E w =
     (case py_input AUrl w of
        (Inl e, w1) \<Rightarrow> (Inl e, w1)
      | (Inr l, w1) \<Rightarrow>
          (let u = strip l
           in if \<not> es_url_valida u then (Inr Sigue, imprime [MNoTwitter] w1)
              else
                (case obtener_info E u w1 of
                   (Inl e, w2) \<Rightarrow> (Inl e, w2)
                 | (Inr r, w2) \<Rightarrow> (Inr Sigue, w2))))"

definition opcion_3 :: "entorno \<Rightarrow> mundo \<Rightarrow> (exc + paso) \<times> mundo" where
  "opcion_3 E w =
     (case recoger [] (imprime [MIngresa] w) of
        (Inl e, w1) \<Rightarrow> (Inl e, w1)
      | (Inr urls, w1) \<Rightarrow>
          if urls = [] then (Inr Sigue, imprime [MSinUrls] w1)
          else
            (case py_input ACarpetaLote w1 of
               (Inl e, w2) \<Rightarrow> (Inl e, w2)
             | (Inr ld, w2) \<Rightarrow>
                 (let carpeta = o_bien (strip ld) ''descargas_twitter''
                  in case descargar_lote E carpeta (length urls) 1 urls
                            (imprime [MDescargandoN (length urls)] w2) of
                       (Inl e, w3) \<Rightarrow> (Inl e, w3)
                     | (Inr r, w3) \<Rightarrow> (Inr Sigue, w3))))"

text \<open>One turn of the \<^verbatim>\<open>while True\<close> of the menu (lines 123 to 179).\<close>

definition menu_paso :: "entorno \<Rightarrow> mundo \<Rightarrow> (exc + paso) \<times> mundo" where
  "menu_paso E w =
     (case py_input AOpcion (imprime [MQueDeseas, MOp1, MOp2, MOp3, MOp0] w) of
        (Inl e, w1) \<Rightarrow> (Inl e, w1)
      | (Inr l, w1) \<Rightarrow>
          (let opcion = strip l
           in if opcion = ''0'' then (Inr Sale, imprime [MHastaLuego] w1)
              else if opcion = ''1'' then opcion_1 E w1
              else if opcion = ''2'' then opcion_2 E w1
              else if opcion = ''3'' then opcion_3 E w1
              else (Inr Sigue, imprime [MOpcionNoValida] w1)))"

text \<open>
  The menu reads a line at every turn and no operation gives lines back, so the loop ends
  when the input does, with \<^verbatim>\<open>EOFError\<close>, if not before.
\<close>

lemma entrada_emite [simp]: "entrada (emite e w) = entrada w"
  by (simp add: emite_def)

lemma entrada_imprime [simp]: "entrada (imprime ms w) = entrada w"
  by (simp add: imprime_def)

lemma py_input_le: "length (entrada (snd (py_input a w))) \<le> length (entrada w)"
  by (simp add: py_input_def split: list.splits)

lemma py_input_lt:
  "py_input a w = (Inr l, w1) \<Longrightarrow> length (entrada w1) < length (entrada w)"
  by (auto simp: py_input_def split: list.splits)

lemma entrada_descargar_video [simp]:
  "entrada (snd (descargar_video E u c q w)) = entrada w"
  by (simp add: descargar_video_def Let_def split: sum.splits ydl_exc.splits)

lemma entrada_obtener_info [simp]: "entrada (snd (obtener_info E u w)) = entrada w"
  by (simp add: obtener_info_def Let_def split: sum.splits)

lemma entrada_descargar_lote [simp]:
  "entrada (snd (descargar_lote E c n i us w)) = entrada w"
proof (induction us arbitrary: i w)
  case Nil
  show ?case by simp
next
  case (Cons u us)
  have "entrada (snd (descargar_video E u c ''best'' (imprime [MProgreso i n] w))) = entrada w"
    by simp
  with Cons show ?case
    by (cases "descargar_video E u c ''best'' (imprime [MProgreso i n] w)")
       (auto split: sum.splits)
qed

lemma entrada_recoger: "length (entrada (snd (recoger urls w))) \<le> length (entrada w)"
proof (induction urls w rule: recoger.induct)
  case (1 urls w)
  obtain r w1 where p: "py_input ALote w = (r, w1)" by (cases "py_input ALote w")
  have le: "length (entrada w1) \<le> length (entrada w)"
    using py_input_le [of ALote w] p by simp
  show ?case
  proof (cases r)
    case (Inl e)
    with p le show ?thesis by (simp add: recoger.simps [of urls w])
  next
    case (Inr l)
    note ih = "1.IH" [OF p [unfolded Inr, symmetric] refl refl]
    show ?thesis
      using p Inr le ih
      by (auto simp: recoger.simps [of urls w] Let_def)
  qed
qed


lemma entrada_opcion_1: "length (entrada (snd (opcion_1 E w))) \<le> length (entrada w)"
proof -
  have a: "\<And>a w. length (entrada (snd (py_input a w))) \<le> length (entrada w)"
    by (rule py_input_le)
  show ?thesis
    unfolding opcion_1_def Let_def
    apply (cases "py_input AUrl w")
    subgoal for r1 w1
      using a [of AUrl w]
      apply (cases r1; simp)
      apply (cases "py_input ACalidad (imprime [MCalidadOpciones] w1)")
      subgoal for l r2 w2
        using a [of ACalidad "imprime [MCalidadOpciones] w1"]
        apply (cases r2; simp)
        apply (cases "py_input ACarpetaActual w2")
        subgoal for lc r3 w3
          using a [of ACarpetaActual w2]
          apply (cases r3; simp)
          subgoal for ld
            using entrada_descargar_video
              [of E "strip l" "o_bien (strip ld) ''descargas_twitter''" "calidad_de (strip lc)" w3]
            by (cases "descargar_video E (strip l) (o_bien (strip ld) ''descargas_twitter'')
                  (calidad_de (strip lc)) w3") (auto split: sum.splits)
          done
        done
      done
    done
qed

lemma entrada_opcion_2: "length (entrada (snd (opcion_2 E w))) \<le> length (entrada w)"
  unfolding opcion_2_def Let_def
  apply (cases "py_input AUrl w")
  subgoal for r1 w1
    using py_input_le [of AUrl w]
    apply (cases r1; simp)
    subgoal for l
      using entrada_obtener_info [of E "strip l" w1]
      by (cases "obtener_info E (strip l) w1") (auto split: sum.splits)
    done
  done

lemma entrada_opcion_3: "length (entrada (snd (opcion_3 E w))) \<le> length (entrada w)"
  unfolding opcion_3_def Let_def
  apply (cases "recoger [] (imprime [MIngresa] w)")
  subgoal for r1 w1
    using entrada_recoger [of "[]" "imprime [MIngresa] w"]
    apply (cases r1; simp)
    apply (cases "py_input ACarpetaLote w1")
    subgoal for urls r2 w2
      using py_input_le [of ACarpetaLote w1]
      apply (cases r2; simp)
      subgoal for ld
        using entrada_descargar_lote [of E "o_bien (strip ld) ''descargas_twitter''"
            "length urls" "Suc 0" urls "imprime [MDescargandoN (length urls)] w2"]
        by (cases "descargar_lote E (o_bien (strip ld) ''descargas_twitter'') (length urls) (Suc 0) urls
              (imprime [MDescargandoN (length urls)] w2)") (auto split: sum.splits)
      done
    done
  done

lemma menu_paso_consume:
  "menu_paso E w = (Inr Sigue, w') \<Longrightarrow> length (entrada w') < length (entrada w)"
proof -
  assume m: "menu_paso E w = (Inr Sigue, w')"
  obtain r w1 where p: "py_input AOpcion (imprime [MQueDeseas, MOp1, MOp2, MOp3, MOp0] w) = (r, w1)"
    by (cases "py_input AOpcion (imprime [MQueDeseas, MOp1, MOp2, MOp3, MOp0] w)")
  show ?thesis
  proof (cases r)
    case (Inl e)
    with m p show ?thesis by (simp add: menu_paso_def)
  next
    case (Inr l)
    with p have lt: "length (entrada w1) < length (entrada w)"
      using py_input_lt [of AOpcion "imprime [MQueDeseas, MOp1, MOp2, MOp3, MOp0] w" l w1] by simp
    have "length (entrada w') \<le> length (entrada w1)"
      using m p Inr entrada_opcion_1 [of E w1] entrada_opcion_2 [of E w1] entrada_opcion_3 [of E w1]
      by (auto simp: menu_paso_def Let_def split: if_splits)
    with lt show ?thesis by simp
  qed
qed

function menu_bucle :: "entorno \<Rightarrow> mundo \<Rightarrow> (exc + unit) \<times> mundo" where
  "menu_bucle E w =
     (case menu_paso E w of
        (Inl e, w1) \<Rightarrow> (Inl e, w1)
      | (Inr Sale, w1) \<Rightarrow> (Inr (), w1)
      | (Inr Sigue, w1) \<Rightarrow> menu_bucle E w1)"
  by pat_completeness auto
termination
  by (relation "measure (\<lambda>(E, w). length (entrada w))") (auto dest: menu_paso_consume [OF sym])

declare menu_bucle.simps [simp del]

definition menu_interactivo :: "entorno \<Rightarrow> mundo \<Rightarrow> (exc + unit) \<times> mundo" where
  "menu_interactivo E w = menu_bucle E (imprime [MRaya, MNombre, MRaya, MVacio] w)"

text \<open>
  \<^verbatim>\<open>main\<close>: \<^verbatim>\<open>sys.argv\<close> is the list of the program's name and its arguments; its
  elements are read only below its length.
\<close>

definition main :: "entorno \<Rightarrow> string list \<Rightarrow> mundo \<Rightarrow> (exc + unit) \<times> mundo" where
  "main E argv w =
     (case instalar_ytdlp E w of
        (Inl e, w1) \<Rightarrow> (Inl e, w1)
      | (Inr b, w1) \<Rightarrow>
          if length argv > 1 then
            (let u = argv ! 1;
                 carpeta = (if length argv > 2 then argv ! 2 else ''descargas_twitter'');
                 calidad = (if length argv > 3 then argv ! 3 else ''best'')
             in if es_url_valida u then
                  (case descargar_video E u carpeta calidad w1 of
                     (Inl e, w2) \<Rightarrow> (Inl e, w2)
                   | (Inr r, w2) \<Rightarrow> (Inr (), w2))
                else (Inr (), imprime [MUso] w1))
          else menu_interactivo E w1)"

section \<open>Reading the record of events\<close>

text \<open>The calls of \<^verbatim>\<open>extract_info\<close> among the events, in order.\<close>

fun extracciones :: "evento list \<Rightarrow> peticion list" where
  "extracciones [] = []"
| "extracciones (Extrae p # es) = p # extracciones es"
| "extracciones (e # es) = extracciones es"

text \<open>
  What a download whose directory could be made adds to the record, what the \<^verbatim>\<open>for\<close> loop
  of the batch adds when every directory could be made, and what the collection of the
  batch adds for the lines read before the sentinel.
\<close>

definition peticion_descarga :: "string \<Rightarrow> string \<Rightarrow> string \<Rightarrow> peticion" where
  "peticion_descarga u c q = \<lparr>opts = opciones_descarga c q, url = u, download = True\<rparr>"

definition eventos_descarga :: "entorno \<Rightarrow> string \<Rightarrow> string \<Rightarrow> string \<Rightarrow> evento list" where
  "eventos_descarga E u c q =
     map Imprime [MDescargando, MUrl u, MDestino (abspath E c), MCalidad q] @
     [Extrae (peticion_descarga u c q)] @
     (case extract_info E (peticion_descarga u c q) of
        Inr meta \<Rightarrow> map Imprime [MExito, MArchivo (prepare_filename E (opciones_descarga c q) meta)]
      | Inl (DownloadError m) \<Rightarrow> map Imprime [MErrorDescarga m, MSugerencia]
      | Inl (OtraExcepcion m) \<Rightarrow> map Imprime [MErrorInesperado m])"

fun eventos_lote :: "entorno \<Rightarrow> string \<Rightarrow> nat \<Rightarrow> nat \<Rightarrow> string list \<Rightarrow> evento list" where
  "eventos_lote E c n i [] = []"
| "eventos_lote E c n i (u # us) =
     Imprime (MProgreso i n) # eventos_descarga E u c ''best'' @ eventos_lote E c n (Suc i) us"

fun eventos_recoger :: "string list \<Rightarrow> evento list" where
  "eventos_recoger [] = []"
| "eventos_recoger (l # ls) =
     Pregunta ALote #
     (if \<not> es_url_valida (strip l) \<and> strip l \<noteq> [] then [Imprime MOmitida] else []) @
     eventos_recoger ls"

text \<open>The progress markers and the extraction calls are the marks of a batch.\<close>

fun es_marca :: "evento \<Rightarrow> bool" where
  "es_marca (Imprime (MProgreso i n)) = True"
| "es_marca (Extrae p) = True"
| "es_marca e = False"

text \<open>
  The events that carry a quality (the printed \<^verbatim>\<open>Calidad\<close> line and the extraction call),
  and those among them whose quality is not \<open>best\<close>.
\<close>

fun otra_calidad :: "evento \<Rightarrow> bool" where
  "otra_calidad (Extrae p) = (format (opts p) \<noteq> Some ''best'')"
| "otra_calidad (Imprime (MCalidad q)) = (q \<noteq> ''best'')"
| "otra_calidad e = False"

fun es_calidad :: "evento \<Rightarrow> bool" where
  "es_calidad (Extrae p) = True"
| "es_calidad (Imprime (MCalidad q)) = True"
| "es_calidad e = False"

section \<open>Sample inputs\<close>

text \<open>
  Three post URLs, a metadata record and an extraction library that succeeds on the first
  URL, raises \<^verbatim>\<open>DownloadError\<close> on the second and another exception on every other one;
  a world with a given disk and input and nothing printed yet; a disk whose only node is the
  regular file \<open>notas.txt\<close>.
\<close>

definition url_a :: string where
  "url_a = ''https://x.com/a/status/1''"

definition url_b :: string where
  "url_b = ''https://twitter.com/b/status/22''"

definition url_c :: string where
  "url_c = ''http://www.x.com/c/status/3''"

definition meta_a :: info where
  "meta_a = \<lparr>title = Some ''Un video'', uploader = Some ''a'', duration = Some ''12.5'',
             upload_date = None,
             formats = [\<lparr>height = Some 360\<rparr>, \<lparr>height = None\<rparr>, \<lparr>height = Some 1080\<rparr>,
                        \<lparr>height = Some 0\<rparr>, \<lparr>height = Some 360\<rparr>, \<lparr>height = Some 720\<rparr>]\<rparr>"

definition entorno_prueba :: entorno where
  "entorno_prueba =
     \<lparr>extract_info = (\<lambda>p. if url p = url_a then Inr meta_a
                          else if url p = url_b then Inl (DownloadError ''no video'')
                          else Inl (OtraExcepcion ''timeout'')),
      prepare_filename = (\<lambda>ops m. get_o (outtmpl ops)),
      abspath = (\<lambda>s. ''/home/u/'' @ s),
      importable = True, pip_ok = True\<rparr>"

definition mundo_de :: "fs \<Rightarrow> string list \<Rightarrow> mundo" where
  "mundo_de f ls = \<lparr>archivos = f, entrada = ls, salida = []\<rparr>"

definition disco_con_fichero :: fs where
  "disco_con_fichero = [[''notas.txt''] \<mapsto> Fichero]"

text \<open>Lines for a batch: an invalid one, a valid one with blanks around, an empty one and
  a valid one.\<close>

definition lineas_lote :: "string list" where
  "lineas_lote = [''no es url'', ''  https://x.com/a/status/1 '', [],
                  ''https://twitter.com/b/status/22'']"

text \<open>A session in which a download at 720 has been announced, about to enter a batch.\<close>

definition mundo_tras_720 :: mundo where
  "mundo_tras_720 =
     \<lparr>archivos = Map.empty, entrada = [url_a, ''listo'', []],
      salida = [Imprime (MCalidad ''720'')]\<rparr>"

section \<open>Properties\<close>

subsection \<open>The matcher against the language of the pattern\<close>

lemma conc_iff: "w \<in> conc A B \<longleftrightarrow> (\<exists>u v. w = u @ v \<and> u \<in> A \<and> v \<in> B)"
  by (auto simp: conc_def)

lemma anulable_iff: "anulable r \<longleftrightarrow> [] \<in> lang r"
  by (induction r) (auto simp: conc_iff intro: estrella.intros)

lemma estrella_cons:
  "c # w \<in> estrella A \<longleftrightarrow> (\<exists>u v. w = u @ v \<and> c # u \<in> A \<and> v \<in> estrella A)"
proof
  assume "c # w \<in> estrella A"
  then show "\<exists>u v. w = u @ v \<and> c # u \<in> A \<and> v \<in> estrella A"
  proof (induction "c # w" rule: estrella.induct)
    case (estrella_paso u v)
    then show ?case by (cases u) auto
  qed
next
  assume "\<exists>u v. w = u @ v \<and> c # u \<in> A \<and> v \<in> estrella A"
  then obtain u v where "w = u @ v" "c # u \<in> A" "v \<in> estrella A" by blast
  then have "(c # u) @ v \<in> estrella A" by (intro estrella.intros)
  with \<open>w = u @ v\<close> show "c # w \<in> estrella A" by simp
qed

lemma conc_cons:
  "c # w \<in> conc A B \<longleftrightarrow>
     (\<exists>u v. w = u @ v \<and> c # u \<in> A \<and> v \<in> B) \<or> ([] \<in> A \<and> c # w \<in> B)"
  by (auto simp: conc_iff Cons_eq_append_conv)

lemma lang_deriv: "w \<in> lang (deriv c r) \<longleftrightarrow> c # w \<in> lang r"
proof (induction r arbitrary: w)
  case (Sec r s)
  have "w \<in> conc (lang (deriv c r)) (lang s) \<longleftrightarrow>
        (\<exists>u v. w = u @ v \<and> c # u \<in> lang r \<and> v \<in> lang s)"
    unfolding conc_iff using Sec.IH(1) by blast
  with Sec.IH(2) show ?case by (simp add: conc_cons anulable_iff)
next
  case (Estrella r)
  have "w \<in> conc (lang (deriv c r)) (estrella (lang r)) \<longleftrightarrow>
        (\<exists>u v. w = u @ v \<and> c # u \<in> lang r \<and> v \<in> estrella (lang r))"
    unfolding conc_iff using Estrella.IH by blast
  then show ?case by (simp add: estrella_cons)
qed auto

lemma re_match_iff: "re_match r s \<longleftrightarrow> (\<exists>p q. s = p @ q \<and> p \<in> lang r)"
proof (induction s arbitrary: r)
  case Nil
  then show ?case by (simp add: anulable_iff)
next
  case (Cons c cs)
  show ?case
  proof
    assume "re_match r (c # cs)"
    then consider "anulable r" | "re_match (deriv c r) cs" by auto
    then show "\<exists>p q. c # cs = p @ q \<and> p \<in> lang r"
    proof cases
      case 1
      then have "c # cs = [] @ (c # cs) \<and> [] \<in> lang r" by (simp add: anulable_iff)
      then show ?thesis by blast
    next
      case 2
      then obtain p q where "cs = p @ q" "p \<in> lang (deriv c r)"
        using Cons.IH by blast
      then have "c # cs = (c # p) @ q \<and> c # p \<in> lang r" by (simp add: lang_deriv)
      then show ?thesis by blast
    qed
  next
    assume "\<exists>p q. c # cs = p @ q \<and> p \<in> lang r"
    then obtain p q where pq: "c # cs = p @ q" "p \<in> lang r" by blast
    show "re_match r (c # cs)"
    proof (cases p)
      case Nil
      with pq have "anulable r" by (simp add: anulable_iff)
      then show ?thesis by simp
    next
      case (Cons d p')
      with pq have "cs = p' @ q" "p' \<in> lang (deriv c r)" by (auto simp: lang_deriv)
      then have "re_match (deriv c r) cs" using Cons.IH by blast
      then show ?thesis by simp
    qed
  qed
qed

lemma lang_Lit: "lang (Lit s) = {s}"
proof (induction s)
  case Nil
  show ?case by simp
next
  case (Cons c s)
  have "conc {[c]} {s} = {c # s}" by (auto simp: conc_def)
  with Cons show ?case by simp
qed

lemma lang_Opc: "lang (Opc r) = lang r \<union> {[]}"
  by (simp add: Opc_def)

lemma conc_single: "w \<in> conc {s} B \<longleftrightarrow> (\<exists>v. w = s @ v \<and> v \<in> B)"
  unfolding conc_iff by blast

lemma conc_opc: "w \<in> conc (A \<union> {[]}) B \<longleftrightarrow> w \<in> conc A B \<or> w \<in> B"
  unfolding conc_iff by auto


lemma atomo_single: "u \<in> lang (Atomo a) \<longleftrightarrow> (\<exists>c. u = [c] \<and> acepta a c)"
  by auto

lemma estrella_atomo: "w \<in> estrella (lang (Atomo a)) \<longleftrightarrow> list_all (acepta a) w"
proof (induction w)
  case Nil
  show ?case by (simp add: estrella.intros)
next
  case (Cons c w)
  have "c # w \<in> estrella (lang (Atomo a)) \<longleftrightarrow>
        (\<exists>u v. w = u @ v \<and> c # u \<in> lang (Atomo a) \<and> v \<in> estrella (lang (Atomo a)))"
    by (rule estrella_cons)
  also have "\<dots> \<longleftrightarrow> acepta a c \<and> w \<in> estrella (lang (Atomo a))"
    unfolding atomo_single by auto
  finally show ?case using Cons by simp
qed


lemma lang_Mas_atomo: "w \<in> lang (Mas (Atomo a)) \<longleftrightarrow> w \<noteq> [] \<and> list_all (acepta a) w"
proof (cases w)
  case Nil
  have "[] \<notin> conc (lang (Atomo a)) (estrella (lang (Atomo a)))"
    unfolding conc_iff atomo_single by simp
  with Nil show ?thesis by (simp only: Mas_def lang.simps(5,6)) simp
next
  case (Cons c u)
  have "c # u \<in> conc (lang (Atomo a)) (estrella (lang (Atomo a))) \<longleftrightarrow>
        (\<exists>x y. u = x @ y \<and> c # x \<in> lang (Atomo a) \<and> y \<in> estrella (lang (Atomo a)))"
    unfolding conc_cons atomo_single by simp
  also have "\<dots> \<longleftrightarrow> acepta a c \<and> u \<in> estrella (lang (Atomo a))"
    unfolding atomo_single by auto
  also have "\<dots> \<longleftrightarrow> acepta a c \<and> list_all (acepta a) u"
    unfolding estrella_atomo ..
  finally have "c # u \<in> lang (Mas (Atomo a)) \<longleftrightarrow> acepta a c \<and> list_all (acepta a) u"
    by (simp only: Mas_def lang.simps(5,6))
  with Cons show ?thesis by simp
qed

lemma concI: "u \<in> A \<Longrightarrow> v \<in> B \<Longrightarrow> u @ v \<in> conc A B"
  unfolding conc_iff by blast

lemma concE: "w \<in> conc A B \<Longrightarrow> (\<And>u v. w = u @ v \<Longrightarrow> u \<in> A \<Longrightarrow> v \<in> B \<Longrightarrow> P) \<Longrightarrow> P"
  unfolding conc_iff by blast


lemma lang_patron_partes:
  assumes "p \<in> lang patron"
  obtains u1 u2 u3 u4 u5 u6 u7 u8 u9 where
    "p = u1 @ u2 @ u3 @ u4 @ u5 @ u6 @ u7 @ u8 @ u9"
    "u1 \<in> lang (Lit ''http'')" "u2 \<in> lang (Opc (Atomo (Car CHR ''s'')))"
    "u3 \<in> lang (Lit ''://'')" "u4 \<in> lang (Opc (Lit ''www.''))"
    "u5 \<in> lang (Alt (Lit ''twitter.com'') (Lit ''x.com''))"
    "u6 \<in> lang (Lit ''/'')" "u7 \<in> lang (Mas (Atomo Punto))"
    "u8 \<in> lang (Lit ''/status/'')" "u9 \<in> lang (Mas (Atomo Digito))"
  using assms unfolding patron_def lang.simps(5) by (elim concE) blast

lemma lang_patron_junta:
  assumes "u1 \<in> lang (Lit ''http'')" "u2 \<in> lang (Opc (Atomo (Car CHR ''s'')))"
    "u3 \<in> lang (Lit ''://'')" "u4 \<in> lang (Opc (Lit ''www.''))"
    "u5 \<in> lang (Alt (Lit ''twitter.com'') (Lit ''x.com''))"
    "u6 \<in> lang (Lit ''/'')" "u7 \<in> lang (Mas (Atomo Punto))"
    "u8 \<in> lang (Lit ''/status/'')" "u9 \<in> lang (Mas (Atomo Digito))"
  shows "u1 @ u2 @ u3 @ u4 @ u5 @ u6 @ u7 @ u8 @ u9 \<in> lang patron"
  unfolding patron_def lang.simps(5) by (intro concI assms)


lemma lang_Lit_iff: "u \<in> lang (Lit w) \<longleftrightarrow> u = w"
  by (simp only: lang_Lit singleton_iff)

lemma lang_opc_car: "u \<in> lang (Opc (Atomo (Car c))) \<longleftrightarrow> u = [] \<or> u = [c]"
  unfolding lang_Opc Un_iff atomo_single singleton_iff by auto

lemma lang_opc_lit: "u \<in> lang (Opc (Lit w)) \<longleftrightarrow> u = [] \<or> u = w"
  unfolding lang_Opc Un_iff lang_Lit_iff singleton_iff by auto

lemma lang_alt_lit: "u \<in> lang (Alt (Lit v) (Lit w)) \<longleftrightarrow> u = v \<or> u = w"
  unfolding lang.simps(4) Un_iff lang_Lit_iff ..

lemma todos_punto: "list_all (acepta Punto) w \<longleftrightarrow> CHR 0x0A \<notin> set w"
  by (induction w) auto

lemma todos_digito: "list_all (acepta Digito) w \<longleftrightarrow> list_all es_digito w"
  by (induction w) auto

lemma valida_forma: "es_url_valida s \<Longrightarrow> forma_url s"
proof -
  assume "es_url_valida s"
  then obtain p q where s: "s = p @ q" and p: "p \<in> lang patron"
    unfolding es_url_valida_def re_match_iff by blast
  from p obtain u1 u2 u3 u4 u5 u6 u7 u8 u9 where
    pe: "p = u1 @ u2 @ u3 @ u4 @ u5 @ u6 @ u7 @ u8 @ u9" and
    m: "u1 \<in> lang (Lit ''http'')" "u2 \<in> lang (Opc (Atomo (Car CHR ''s'')))"
       "u3 \<in> lang (Lit ''://'')" "u4 \<in> lang (Opc (Lit ''www.''))"
       "u5 \<in> lang (Alt (Lit ''twitter.com'') (Lit ''x.com''))"
       "u6 \<in> lang (Lit ''/'')" "u7 \<in> lang (Mas (Atomo Punto))"
       "u8 \<in> lang (Lit ''/status/'')" "u9 \<in> lang (Mas (Atomo Digito))"
    by (rule lang_patron_partes)
  note u = m [unfolded lang_Lit_iff lang_opc_car lang_opc_lit lang_alt_lit lang_Mas_atomo
      todos_punto todos_digito]
  have e: "u1 @ u2 = ''http'' \<or> u1 @ u2 = ''https''"
    using u(1,2) by auto
  have "s = (u1 @ u2) @ ''://'' @ u4 @ u5 @ ''/'' @ u7 @ ''/status/'' @ u9 @ q"
    unfolding s pe u(3,6,8) by (simp only: append_assoc)
  with e u(4,5,7,9) show "forma_url s"
    unfolding forma_url_def by blast
qed


lemma forma_valida: "forma_url s \<Longrightarrow> es_url_valida s"
proof -
  assume "forma_url s"
  then obtain esquema www host camino ident resto where
    s: "s = esquema @ ''://'' @ www @ host @ ''/'' @ camino @ ''/status/'' @ ident @ resto" and
    h: "esquema = ''http'' \<or> esquema = ''https''" "www = [] \<or> www = ''www.''"
       "host = ''twitter.com'' \<or> host = ''x.com''"
       "camino \<noteq> [] \<and> CHR 0x0A \<notin> set camino" "ident \<noteq> [] \<and> list_all es_digito ident"
    unfolding forma_url_def by blast
  from h(1) obtain u2 where e: "esquema = ''http'' @ u2" and u2: "u2 = [] \<or> u2 = ''s''"
    by auto
  have "''http'' @ u2 @ ''://'' @ www @ host @ ''/'' @ camino @ ''/status/'' @ ident
        \<in> lang patron"
    by (rule lang_patron_junta)
       (simp_all only: lang_Lit_iff lang_opc_car lang_opc_lit lang_alt_lit lang_Mas_atomo
          todos_punto todos_digito u2 h simp_thms)
  moreover have "s = (''http'' @ u2 @ ''://'' @ www @ host @ ''/'' @ camino @ ''/status/'' @ ident)
                     @ resto"
    unfolding s e by (simp only: append_assoc)
  ultimately show "es_url_valida s"
    unfolding es_url_valida_def re_match_iff by blast
qed


text \<open>
  C1. For every string \<open>s\<close> the validator answers true exactly when \<open>s\<close> begins with a
  match of \<^verbatim>\<open>https?://(www\.)?(twitter\.com|x\.com)/.+/status/\d+\<close>: scheme, optional
  \<open>www.\<close>, one of the two hosts, a non-empty path without line feed, \<open>/status/\<close> and at
  least one digit, followed by anything. The validator is a total function into \<open>bool\<close>.
\<close>

theorem es_url_valida_forma: "es_url_valida s = forma_url s"
  using valida_forma forma_valida by blast

theorem es_url_valida_forma_witness:
  "forma_url ''https://twitter.com/user/status/12345'' \<and>
   forma_url ''https://x.com/user/status/999'' \<and>
   \<not> forma_url ''https://example.com/status/1'' \<and>
   \<not> forma_url ''https://x.com/status/abc''"
  unfolding es_url_valida_forma [symmetric]
  by (simp add: es_url_valida_def patron_def Opc_def Mas_def es_digito_def)

subsection \<open>Quality selectors\<close>

text \<open>
  C6. Both quality mappings are total and default to \<open>best\<close>: the menu's selector sends
  \<open>1\<close> to \<open>best\<close>, \<open>2\<close> to \<open>720\<close>, \<open>3\<close> to \<open>480\<close>, \<open>4\<close> to \<open>360\<close>, \<open>5\<close> to
  \<open>worst\<close> and every other answer, the empty one included, to \<open>best\<close>; the format
  expression of \<open>720\<close>, \<open>480\<close> and \<open>360\<close> is the height-capped \<open>best[height<=N]\<close>,
  that of \<open>worst\<close> is \<open>worst\<close>, and every unrecognised selector gives \<open>best\<close>.
\<close>

theorem calidades_totales:
  "calidad_de ''1'' = ''best'' \<and> calidad_de ''2'' = ''720'' \<and> calidad_de ''3'' = ''480'' \<and>
   calidad_de ''4'' = ''360'' \<and> calidad_de ''5'' = ''worst'' \<and> calidad_de [] = ''best'' \<and>
   (k \<notin> {''1'', ''2'', ''3'', ''4'', ''5''} \<longrightarrow> calidad_de k = ''best'') \<and>
   formato_de ''best'' = ''best'' \<and> formato_de ''worst'' = ''worst'' \<and>
   formato_de ''720'' = ''best[height<=720]'' \<and>
   formato_de ''480'' = ''best[height<=480]'' \<and>
   formato_de ''360'' = ''best[height<=360]'' \<and>
   (q \<notin> {''best'', ''worst'', ''720'', ''480'', ''360''} \<longrightarrow> formato_de q = ''best'')"
  by (simp add: calidad_de_def formato_de_def dict_get_def calidades_def formatos_def)

theorem calidades_totales_witness:
  "''7'' \<notin> {''1'', ''2'', ''3'', ''4'', ''5''} \<and> calidad_de ''7'' = ''best'' \<and>
   ''unknown-value'' \<notin> {''best'', ''worst'', ''720'', ''480'', ''360''} \<and>
   formato_de ''unknown-value'' = ''best''"
  using calidades_totales [of "''7''" "''unknown-value''"] by simp

subsection \<open>Directory creation\<close>

lemma stat_cons_Inr:
  "stat f (c # p) = Inr k \<longleftrightarrow> stat f p = Inr Carpeta \<and> f (c # p) = Some k"
  by (auto split: sum.splits nodo.splits option.splits)

lemma stat_errores: "stat f p = Inl e \<Longrightarrow> e = FileNotFoundError \<or> e = NotADirectoryError"
  by (induction p arbitrary: e) (auto split: sum.splits nodo.splits option.splits)

lemma stat_fichero: "stat f p = Inr Fichero \<Longrightarrow> f p = Some Fichero"
  by (cases p) (auto simp: stat_cons_Inr simp del: stat.simps(2))

lemma ancestros_mismo: "p \<in> set (ancestros p)"
  by (cases p) simp_all

lemma mkdir_existente: "is_dir f p \<Longrightarrow> mkdir f p = Inr f"
  by (cases p) (auto simp: is_dir_def stat_cons_Inr simp del: stat.simps(2))

lemma os_mkdir_Inr:
  "os_mkdir f p = Inr f' \<longleftrightarrow>
     (\<exists>c padre. p = c # padre \<and> stat f padre = Inr Carpeta \<and> f p = None \<and>
        f' = f(p \<mapsto> Carpeta))"
  by (cases p) (auto split: sum.splits nodo.splits option.splits)

lemma stat_nuevo:
  "f p = None \<Longrightarrow> stat f q = Inr k \<Longrightarrow> stat (f(p \<mapsto> Carpeta)) q = Inr k"
proof (induction q arbitrary: k)
  case Nil
  then show ?case by simp
next
  case (Cons c q)
  from Cons.prems(2) have a: "stat f q = Inr Carpeta" "f (c # q) = Some k"
    by (simp_all add: stat_cons_Inr del: stat.simps(2))
  with Cons.prems(1) have "c # q \<noteq> p" by auto
  with a Cons.IH [OF Cons.prems(1) a(1)] show ?case
    by (simp add: stat_cons_Inr del: stat.simps(2))
qed

lemma os_mkdir_is_dir: "os_mkdir f p = Inr f' \<Longrightarrow> is_dir f' p"
  by (auto simp: os_mkdir_Inr is_dir_def stat_cons_Inr stat_nuevo simp del: stat.simps(2))

lemma mkdir_sin_padres_is_dir: "mkdir_sin_padres f p = Inr f' \<Longrightarrow> is_dir f' p"
  by (auto simp: mkdir_sin_padres_def os_mkdir_is_dir split: sum.splits exc.splits if_splits)

lemma mkdir_is_dir: "mkdir f p = Inr f' \<Longrightarrow> is_dir f' p"
proof (induction p arbitrary: f f')
  case Nil
  then show ?case by (simp add: is_dir_def)
next
  case (Cons c p)
  then show ?case
    by (auto simp: os_mkdir_is_dir mkdir_sin_padres_is_dir
        split: sum.splits exc.splits if_splits)
qed

lemma mkdir_idempotente: "mkdir f p = Inr f' \<Longrightarrow> mkdir f' p = Inr f'"
  by (rule mkdir_existente) (rule mkdir_is_dir)


lemma ancestros_largo: "q \<in> set (ancestros p) \<Longrightarrow> length q \<le> length p"
  by (induction p) auto

lemma os_mkdir_marco: "os_mkdir f p = Inr f' \<Longrightarrow> r \<noteq> p \<Longrightarrow> f' r = f r"
  by (auto simp: os_mkdir_Inr)

lemma mkdir_sin_padres_marco: "mkdir_sin_padres f p = Inr f' \<Longrightarrow> r \<noteq> p \<Longrightarrow> f' r = f r"
  by (auto simp: mkdir_sin_padres_def os_mkdir_marco split: sum.splits exc.splits if_splits)

lemma mkdir_marco: "mkdir f p = Inr f' \<Longrightarrow> r \<notin> set (ancestros p) \<Longrightarrow> f' r = f r"
proof (induction p arbitrary: f f')
  case Nil
  then show ?case by (simp add: is_dir_def)
next
  case (Cons c p)
  from Cons.prems(2) have r: "r \<noteq> c # p" "r \<notin> set (ancestros p)" by auto
  show ?case
  proof (cases "os_mkdir f (c # p)")
    case (Inr g)
    with Cons.prems(1) have "g = f'" by simp
    with Inr have "os_mkdir f (c # p) = Inr f'" by (simp del: os_mkdir.simps)
    then show ?thesis using r(1) by (rule os_mkdir_marco)
  next
    case (Inl e)
    show ?thesis
    proof (cases "e = FileNotFoundError")
      case True
      with Inl Cons.prems(1) obtain f1 where
        m: "mkdir f p = Inr f1" and s: "mkdir_sin_padres f1 (c # p) = Inr f'"
        by (auto split: sum.splits)
      from Cons.IH [OF m r(2)] mkdir_sin_padres_marco [OF s r(1)] show ?thesis by simp
    next
      case False
      with Inl Cons.prems(1) have "f' = f"
        by (cases e) (auto split: if_splits)
      then show ?thesis by simp
    qed
  qed
qed

subsection \<open>Evaluating the sample inputs\<close>

lemma url_a_valida: "es_url_valida url_a"
  by (simp add: url_a_def es_url_valida_def patron_def Opc_def Mas_def es_digito_def)

lemma url_b_valida: "es_url_valida url_b"
  by (simp add: url_b_def es_url_valida_def patron_def Opc_def Mas_def es_digito_def)


lemma ruta_ej1: "ruta_de ''descargas_twitter'' = [''descargas_twitter'']"
  by (simp add: ruta_de_def)

lemma ruta_ej2: "ruta_de ''notas.txt/videos'' = [''videos'', ''notas.txt'']"
  by (simp add: ruta_de_def)

lemma ruta_ej3: "ruta_de ''notas.txt'' = [''notas.txt'']"
  by (simp add: ruta_de_def)

subsection \<open>The download operation\<close>

lemma descargar_video_ok:
  assumes "mkdir (archivos w) (ruta_de c) = Inr f'"
  shows "descargar_video E u c q w =
     (let ops = opciones_descarga c q;
          pet = \<lparr>opts = ops, url = u, download = True\<rparr>;
          cab = map Imprime [MDescargando, MUrl u, MDestino (abspath E c), MCalidad q] @ [Extrae pet]
      in case extract_info E pet of
           Inr meta \<Rightarrow>
             (Inr (Some (prepare_filename E ops meta)),
              w\<lparr>archivos := f', salida := salida w @ cab @
                   map Imprime [MExito, MArchivo (prepare_filename E ops meta)]\<rparr>)
         | Inl (DownloadError m) \<Rightarrow>
             (Inr None, w\<lparr>archivos := f', salida := salida w @ cab @
                   map Imprime [MErrorDescarga m, MSugerencia]\<rparr>)
         | Inl (OtraExcepcion m) \<Rightarrow>
             (Inr None, w\<lparr>archivos := f', salida := salida w @ cab @
                   map Imprime [MErrorInesperado m]\<rparr>))"
  using assms
  by (simp add: descargar_video_def Let_def imprime_def emite_def
      split: sum.splits ydl_exc.splits)

lemma descargar_video_falla:
  "fst (descargar_video E u c q w) = Inl e \<longleftrightarrow> mkdir (archivos w) (ruta_de c) = Inl e"
  by (simp add: descargar_video_def Let_def split: sum.splits ydl_exc.splits)



text \<open>
  C2. Once the destination directory is there, so that the extraction call is made: when the
  call returns the metadata, the download operation returns the output path resolved from
  it (and prints the confirmation with that path); when the call raises the library's
  download error, the operation prints that error and the hint about a public tweet with a
  video, and returns \<open>None\<close>; when the call raises any other exception, the operation
  prints the generic diagnostic and returns \<open>None\<close>.
\<close>

theorem descargar_video_resultados:
  assumes "mkdir (archivos w) (ruta_de c) = Inr f'"
  shows
    "(extract_info E \<lparr>opts = opciones_descarga c q, url = u, download = True\<rparr> = Inr meta \<longrightarrow>
        fst (descargar_video E u c q w) = Inr (Some (prepare_filename E (opciones_descarga c q) meta)) \<and>
        salida (snd (descargar_video E u c q w)) =
          salida w @ map Imprime [MDescargando, MUrl u, MDestino (abspath E c), MCalidad q] @
          [Extrae \<lparr>opts = opciones_descarga c q, url = u, download = True\<rparr>,
           Imprime MExito,
           Imprime (MArchivo (prepare_filename E (opciones_descarga c q) meta))]) \<and>
     (extract_info E \<lparr>opts = opciones_descarga c q, url = u, download = True\<rparr> =
          Inl (DownloadError m) \<longrightarrow>
        fst (descargar_video E u c q w) = Inr None \<and>
        salida (snd (descargar_video E u c q w)) =
          salida w @ map Imprime [MDescargando, MUrl u, MDestino (abspath E c), MCalidad q] @
          [Extrae \<lparr>opts = opciones_descarga c q, url = u, download = True\<rparr>,
           Imprime (MErrorDescarga m), Imprime MSugerencia]) \<and>
     (extract_info E \<lparr>opts = opciones_descarga c q, url = u, download = True\<rparr> =
          Inl (OtraExcepcion m) \<longrightarrow>
        fst (descargar_video E u c q w) = Inr None \<and>
        salida (snd (descargar_video E u c q w)) =
          salida w @ map Imprime [MDescargando, MUrl u, MDestino (abspath E c), MCalidad q] @
          [Extrae \<lparr>opts = opciones_descarga c q, url = u, download = True\<rparr>,
           Imprime (MErrorInesperado m)])"
  by (simp add: descargar_video_ok [OF assms] Let_def)

lemma mkdir_vacio_ej: "mkdir Map.empty [''descargas_twitter''] = Inr [[''descargas_twitter''] \<mapsto> Carpeta]"
  by simp

theorem descargar_video_resultados_witness:
  "mkdir (archivos (mundo_de Map.empty [])) (ruta_de ''descargas_twitter'') =
     Inr [[''descargas_twitter''] \<mapsto> Carpeta] \<and>
   fst (descargar_video entorno_prueba url_a ''descargas_twitter'' ''720'' (mundo_de Map.empty [])) =
     Inr (Some ''descargas_twitter/%(uploader)s_%(id)s.%(ext)s'') \<and>
   fst (descargar_video entorno_prueba url_b ''descargas_twitter'' ''720'' (mundo_de Map.empty [])) =
     Inr None \<and>
   last (salida (snd (descargar_video entorno_prueba url_b ''descargas_twitter'' ''720''
     (mundo_de Map.empty [])))) = Imprime MSugerencia \<and>
   fst (descargar_video entorno_prueba url_c ''descargas_twitter'' ''720'' (mundo_de Map.empty [])) =
     Inr None \<and>
   last (salida (snd (descargar_video entorno_prueba url_c ''descargas_twitter'' ''720''
     (mundo_de Map.empty [])))) = Imprime (MErrorInesperado ''timeout'')"
proof -
  have h: "mkdir (archivos (mundo_de Map.empty [])) (ruta_de ''descargas_twitter'') =
     Inr [[''descargas_twitter''] \<mapsto> Carpeta]"
    by (simp add: mundo_de_def ruta_ej1)
  have ab: "url_a \<noteq> url_b" "url_c \<noteq> url_a" "url_c \<noteq> url_b"
    by (simp_all add: url_a_def url_b_def url_c_def)
  have a: "extract_info entorno_prueba
      \<lparr>opts = opciones_descarga ''descargas_twitter'' ''720'', url = url_a, download = True\<rparr> =
      Inr meta_a"
    by (simp add: entorno_prueba_def)
  have b: "extract_info entorno_prueba
      \<lparr>opts = opciones_descarga ''descargas_twitter'' ''720'', url = url_b, download = True\<rparr> =
      Inl (DownloadError ''no video'')"
    using ab by (simp add: entorno_prueba_def)
  have c: "extract_info entorno_prueba
      \<lparr>opts = opciones_descarga ''descargas_twitter'' ''720'', url = url_c, download = True\<rparr> =
      Inl (OtraExcepcion ''timeout'')"
    using ab by (simp add: entorno_prueba_def)
  have n: "prepare_filename entorno_prueba (opciones_descarga ''descargas_twitter'' ''720'') meta_a =
      ''descargas_twitter/%(uploader)s_%(id)s.%(ext)s''"
    by (simp add: entorno_prueba_def opciones_descarga_def get_o_def path_join_def plantilla_def)
  show ?thesis
    using h
      descargar_video_resultados [OF h, of entorno_prueba "''720''" url_a meta_a]
      descargar_video_resultados [OF h, of entorno_prueba "''720''" url_b _ "''no video''"]
      descargar_video_resultados [OF h, of entorno_prueba "''720''" url_c _ "''timeout''"]
      a b c n
    by simp
qed


lemma is_dir_ancestros: "is_dir f p \<Longrightarrow> list_all (is_dir f) (ancestros p)"
proof (induction p)
  case Nil
  then show ?case by simp
next
  case (Cons c padre)
  then have "is_dir f padre"
    by (simp add: is_dir_def split: sum.splits nodo.splits)
  with Cons show ?case by simp
qed

lemma ruta_ej5: "ruta_de ''videos/twitter'' = [''twitter'', ''videos'']"
  by (simp add: ruta_de_def)

lemma mkdir_anidado_ej:
  "mkdir Map.empty [''twitter'', ''videos''] =
     Inr [[''videos''] \<mapsto> Carpeta, [''twitter'', ''videos''] \<mapsto> Carpeta]"
  by (simp add: mkdir_sin_padres_def is_dir_def)

text \<open>
  C7. Whenever a download into a destination has returned, so that the creation of the
  destination did not raise, the destination and every one of its parents is a directory,
  those that were missing having been made; and a second download into the same destination
  does not raise either and leaves the directories as they are.
\<close>

theorem carpeta_idempotente:
  "fst (descargar_video E u c q w) = Inr r \<longrightarrow>
      is_dir (archivos (snd (descargar_video E u c q w))) (ruta_de c) \<and>
      list_all (is_dir (archivos (snd (descargar_video E u c q w)))) (ancestros (ruta_de c)) \<and>
      (\<exists>r'. fst (descargar_video E u' c q' (snd (descargar_video E u c q w))) = Inr r') \<and>
      archivos (snd (descargar_video E u' c q' (snd (descargar_video E u c q w)))) =
        archivos (snd (descargar_video E u c q w))"
proof (intro conjI impI)
  assume r: "fst (descargar_video E u c q w) = Inr r"
  obtain f' where m: "mkdir (archivos w) (ruta_de c) = Inr f'"
  proof (cases "mkdir (archivos w) (ruta_de c)")
    case (Inl e)
    then have "fst (descargar_video E u c q w) = Inl e" by (simp add: descargar_video_falla)
    with r show ?thesis by simp
  next
    case (Inr f')
    then show ?thesis by (rule that)
  qed
  have a: "archivos (snd (descargar_video E u c q w)) = f'"
    by (simp add: descargar_video_ok [OF m] Let_def split: sum.splits ydl_exc.splits)
  have m2: "mkdir (archivos (snd (descargar_video E u c q w))) (ruta_de c) = Inr f'"
    unfolding a using m by (rule mkdir_idempotente)
  show d: "is_dir (archivos (snd (descargar_video E u c q w))) (ruta_de c)"
    unfolding a using m by (rule mkdir_is_dir)
  show "list_all (is_dir (archivos (snd (descargar_video E u c q w)))) (ancestros (ruta_de c))"
    using d by (rule is_dir_ancestros)
  show "\<exists>r'. fst (descargar_video E u' c q' (snd (descargar_video E u c q w))) = Inr r'"
    by (simp add: descargar_video_ok [OF m2] Let_def split: sum.splits ydl_exc.splits)
  show "archivos (snd (descargar_video E u' c q' (snd (descargar_video E u c q w)))) =
        archivos (snd (descargar_video E u c q w))"
    unfolding a [symmetric]
    by (simp add: descargar_video_ok [OF m2] a Let_def split: sum.splits ydl_exc.splits)
qed

text \<open>
  The destination \<open>notas.txt/videos\<close> is absent on a disk where \<open>notas.txt\<close> is a regular
  file, and the download operation leaves with \<^verbatim>\<open>NotADirectoryError\<close>.
\<close>

theorem carpeta_bajo_fichero:
  "archivos (mundo_de disco_con_fichero []) (ruta_de ''notas.txt/videos'') = None \<and>
   fst (descargar_video entorno_prueba url_a ''notas.txt/videos'' ''best''
          (mundo_de disco_con_fichero [])) = Inl NotADirectoryError"
  by (simp add: descargar_video_falla ruta_ej2 mundo_de_def disco_con_fichero_def is_dir_def)

theorem carpeta_idempotente_witness:
  "archivos (mundo_de Map.empty []) (ruta_de ''videos/twitter'') = None \<and>
   archivos (mundo_de Map.empty []) [''videos''] = None \<and>
   fst (descargar_video entorno_prueba url_a ''videos/twitter'' ''best'' (mundo_de Map.empty [])) =
     Inr (Some ''videos/twitter/%(uploader)s_%(id)s.%(ext)s'') \<and>
   is_dir (archivos (snd (descargar_video entorno_prueba url_a ''videos/twitter'' ''best''
     (mundo_de Map.empty [])))) [''twitter'', ''videos''] \<and>
   is_dir (archivos (snd (descargar_video entorno_prueba url_a ''videos/twitter'' ''best''
     (mundo_de Map.empty [])))) [''videos''] \<and>
   (\<exists>r'. fst (descargar_video entorno_prueba url_b ''videos/twitter'' ''480''
     (snd (descargar_video entorno_prueba url_a ''videos/twitter'' ''best''
       (mundo_de Map.empty [])))) = Inr r') \<and>
   archivos (snd (descargar_video entorno_prueba url_b ''videos/twitter'' ''480''
     (snd (descargar_video entorno_prueba url_a ''videos/twitter'' ''best''
       (mundo_de Map.empty []))))) =
     archivos (snd (descargar_video entorno_prueba url_a ''videos/twitter'' ''best''
       (mundo_de Map.empty [])))"
proof -
  have h: "mkdir (archivos (mundo_de Map.empty [])) (ruta_de ''videos/twitter'') =
     Inr [[''videos''] \<mapsto> Carpeta, [''twitter'', ''videos''] \<mapsto> Carpeta]"
    by (simp add: mundo_de_def ruta_ej5 mkdir_sin_padres_def is_dir_def)
  have n: "archivos (mundo_de Map.empty []) (ruta_de ''videos/twitter'') = None"
      "archivos (mundo_de Map.empty []) [''videos''] = None"
    by (simp_all add: mundo_de_def)
  have r: "fst (descargar_video entorno_prueba url_a ''videos/twitter'' ''best''
       (mundo_de Map.empty [])) = Inr (Some ''videos/twitter/%(uploader)s_%(id)s.%(ext)s'')"
    by (simp add: descargar_video_ok [OF h] Let_def entorno_prueba_def opciones_descarga_def
        get_o_def path_join_def plantilla_def)
  note t = carpeta_idempotente [of entorno_prueba url_a "''videos/twitter''" "''best''"
        "mundo_de Map.empty []" "Some ''videos/twitter/%(uploader)s_%(id)s.%(ext)s''" url_b "''480''",
        unfolded ruta_ej5]
  from t r n show ?thesis by simp
qed

subsection \<open>The info operation\<close>

lemma resoluciones_set:
  "set (resoluciones_de fs rs) =
     set rs \<union> {h. h \<noteq> 0 \<and> (\<exists>f \<in> set fs. height f = Some h)}"
  by (induction fs rs rule: resoluciones_de.induct) (auto split: option.splits)

lemma resoluciones_distinct: "distinct rs \<Longrightarrow> distinct (resoluciones_de fs rs)"
  by (induction fs rs rule: resoluciones_de.induct) (auto split: option.splits)

lemma linea_ej: "linea_calidades [720, 1080, 360] = ''1080p, 720p, 360p''"
  by (simp add: linea_calidades_def str_int_def str_nat.simps char_of_def bit_0)

text \<open>
  C8. The info operation calls the extraction with \<open>download = False\<close> and no format or
  output template, so no media is fetched, and it never raises. When the call returns the
  metadata it prints title, author, duration and upload date, and then, unless there is
  none, the available heights: each non-zero height once, in descending order, each
  followed by \<open>p\<close> and separated by commas. When the call raises, it prints the generic
  diagnostic with the exception's text.
\<close>

theorem obtener_info_resultados:
  "fst (obtener_info E u w) = Inr () \<and>
   (extract_info E \<lparr>opts = opciones_info, url = u, download = False\<rparr> = Inr meta \<longrightarrow>
      (\<exists>L. sorted (rev L) \<and> distinct L \<and>
           set L = {h. h \<noteq> 0 \<and> (\<exists>f \<in> set (formats meta). height f = Some h)} \<and>
           salida (snd (obtener_info E u w)) =
             salida w @
             [Imprime MObteniendo,
              Extrae \<lparr>opts = opciones_info, url = u, download = False\<rparr>,
              Imprime MCabecera,
              Imprime (MTitulo (get_o (title meta))),
              Imprime (MUsuario (get_o (uploader meta))),
              Imprime (MDuracion (get_o (duration meta))),
              Imprime (MFecha (get_o (upload_date meta)))] @
             (if L = [] then []
              else [Imprime (MCalidades (join '', '' (map (\<lambda>h. str_int h @ ''p'') L)))]))) \<and>
   (extract_info E \<lparr>opts = opciones_info, url = u, download = False\<rparr> = Inl x \<longrightarrow>
      salida (snd (obtener_info E u w)) =
        salida w @
        [Imprime MObteniendo,
         Extrae \<lparr>opts = opciones_info, url = u, download = False\<rparr>,
         Imprime (MNoInfo (str_exc x))])"
proof (intro conjI impI)
  show "fst (obtener_info E u w) = Inr ()"
    by (simp add: obtener_info_def Let_def split: sum.splits)
next
  assume ok: "extract_info E \<lparr>opts = opciones_info, url = u, download = False\<rparr> = Inr meta"
  define rs where "rs = resoluciones_de (formats meta) []"
  define L where "L = rev (sort rs)"
  have "sorted (rev L)" by (simp add: L_def)
  moreover have "distinct L"
    using resoluciones_distinct [of "[]" "formats meta"] by (simp add: L_def rs_def)
  moreover have "set L = {h. h \<noteq> 0 \<and> (\<exists>f \<in> set (formats meta). height f = Some h)}"
    by (simp add: L_def rs_def resoluciones_set)
  moreover have "length L = length rs"
    by (simp add: L_def)
  then have "L = [] \<longleftrightarrow> rs = []"
    by (metis length_0_conv)
  then have "salida (snd (obtener_info E u w)) =
      salida w @
      [Imprime MObteniendo,
       Extrae \<lparr>opts = opciones_info, url = u, download = False\<rparr>,
       Imprime MCabecera,
       Imprime (MTitulo (get_o (title meta))),
       Imprime (MUsuario (get_o (uploader meta))),
       Imprime (MDuracion (get_o (duration meta))),
       Imprime (MFecha (get_o (upload_date meta)))] @
      (if L = [] then []
       else [Imprime (MCalidades (join '', '' (map (\<lambda>h. str_int h @ ''p'') L)))])"
    using ok
    by (simp add: obtener_info_def Let_def imprime_def emite_def linea_calidades_def
        rs_def [symmetric] L_def [symmetric])
  ultimately show "\<exists>L. sorted (rev L) \<and> distinct L \<and>
           set L = {h. h \<noteq> 0 \<and> (\<exists>f \<in> set (formats meta). height f = Some h)} \<and>
           salida (snd (obtener_info E u w)) =
             salida w @
             [Imprime MObteniendo,
              Extrae \<lparr>opts = opciones_info, url = u, download = False\<rparr>,
              Imprime MCabecera,
              Imprime (MTitulo (get_o (title meta))),
              Imprime (MUsuario (get_o (uploader meta))),
              Imprime (MDuracion (get_o (duration meta))),
              Imprime (MFecha (get_o (upload_date meta)))] @
             (if L = [] then []
              else [Imprime (MCalidades (join '', '' (map (\<lambda>h. str_int h @ ''p'') L)))])"
    by blast
next
  assume "extract_info E \<lparr>opts = opciones_info, url = u, download = False\<rparr> = Inl x"
  then show "salida (snd (obtener_info E u w)) =
        salida w @
        [Imprime MObteniendo,
         Extrae \<lparr>opts = opciones_info, url = u, download = False\<rparr>,
         Imprime (MNoInfo (str_exc x))]"
    by (simp add: obtener_info_def Let_def imprime_def emite_def)
qed

lemma resoluciones_ej: "resoluciones_de (formats meta_a) [] = [720, 1080, 360]"
  by (simp add: meta_a_def)

theorem obtener_info_resultados_witness:
  "extract_info entorno_prueba \<lparr>opts = opciones_info, url = url_a, download = False\<rparr> = Inr meta_a \<and>
   salida (snd (obtener_info entorno_prueba url_a (mundo_de Map.empty []))) =
     [Imprime MObteniendo,
      Extrae \<lparr>opts = opciones_info, url = url_a, download = False\<rparr>,
      Imprime MCabecera, Imprime (MTitulo ''Un video''), Imprime (MUsuario ''a''),
      Imprime (MDuracion ''12.5''), Imprime (MFecha ''N/A''),
      Imprime (MCalidades ''1080p, 720p, 360p'')] \<and>
   extract_info entorno_prueba \<lparr>opts = opciones_info, url = url_b, download = False\<rparr> =
     Inl (DownloadError ''no video'') \<and>
   salida (snd (obtener_info entorno_prueba url_b (mundo_de Map.empty []))) =
     [Imprime MObteniendo,
      Extrae \<lparr>opts = opciones_info, url = url_b, download = False\<rparr>,
      Imprime (MNoInfo ''no video'')]"
proof -
  have ab: "url_b \<noteq> url_a"
    by (simp add: url_a_def url_b_def)
  have a: "extract_info entorno_prueba \<lparr>opts = opciones_info, url = url_a, download = False\<rparr> =
      Inr meta_a"
    by (simp add: entorno_prueba_def)
  have b: "extract_info entorno_prueba \<lparr>opts = opciones_info, url = url_b, download = False\<rparr> =
      Inl (DownloadError ''no video'')"
    using ab by (simp add: entorno_prueba_def)
  from a obtener_info_resultados [of entorno_prueba url_a "mundo_de Map.empty []" meta_a]
  obtain L where L: "sorted (rev L)" "distinct L"
      "set L = {h. h \<noteq> 0 \<and> (\<exists>f \<in> set (formats meta_a). height f = Some h)}"
    and s: "salida (snd (obtener_info entorno_prueba url_a (mundo_de Map.empty []))) =
             salida (mundo_de Map.empty []) @
             [Imprime MObteniendo,
              Extrae \<lparr>opts = opciones_info, url = url_a, download = False\<rparr>,
              Imprime MCabecera,
              Imprime (MTitulo (get_o (title meta_a))),
              Imprime (MUsuario (get_o (uploader meta_a))),
              Imprime (MDuracion (get_o (duration meta_a))),
              Imprime (MFecha (get_o (upload_date meta_a)))] @
             (if L = [] then []
              else [Imprime (MCalidades (join '', '' (map (\<lambda>h. str_int h @ ''p'') L)))])"
    by blast
  have "salida (snd (obtener_info entorno_prueba url_a (mundo_de Map.empty []))) =
     [Imprime MObteniendo,
      Extrae \<lparr>opts = opciones_info, url = url_a, download = False\<rparr>,
      Imprime MCabecera, Imprime (MTitulo ''Un video''), Imprime (MUsuario ''a''),
      Imprime (MDuracion ''12.5''), Imprime (MFecha ''N/A''),
      Imprime (MCalidades ''1080p, 720p, 360p'')]"
    using a
    by (simp add: obtener_info_def Let_def imprime_def emite_def mundo_de_def resoluciones_ej
        linea_ej) (simp add: meta_a_def get_o_def)
  moreover have "salida (snd (obtener_info entorno_prueba url_b (mundo_de Map.empty []))) =
     [Imprime MObteniendo,
      Extrae \<lparr>opts = opciones_info, url = url_b, download = False\<rparr>,
      Imprime (MNoInfo ''no video'')]"
    using b obtener_info_resultados [of entorno_prueba url_b "mundo_de Map.empty []" _
        "DownloadError ''no video''"]
    by (simp add: mundo_de_def)
  ultimately show ?thesis using a b by simp
qed

subsection \<open>The entry point\<close>

lemma extracciones_append [simp]: "extracciones (xs @ ys) = extracciones xs @ extracciones ys"
  by (induction xs rule: extracciones.induct) simp_all

lemma extracciones_imprime [simp]: "extracciones (map Imprime ms) = []"
  by (induction ms) simp_all

lemma instalar_ok:
  "importable E \<or> pip_ok E \<Longrightarrow> fst (instalar_ytdlp E w) = Inr True"
  by (auto simp: instalar_ytdlp_def Let_def)

lemma instalar_sin_extraer:
  "extracciones (salida (snd (instalar_ytdlp E w))) = extracciones (salida w)"
  by (simp add: instalar_ytdlp_def Let_def imprime_def emite_def)

lemma instalar_archivos [simp]: "archivos (snd (instalar_ytdlp E w)) = archivos w"
  by (simp add: instalar_ytdlp_def Let_def imprime_def emite_def)

lemma opciones_por_defecto:
  "opciones_descarga ''descargas_twitter'' ''best'' =
     \<lparr>format = Some ''best'',
      outtmpl = Some ''descargas_twitter/%(uploader)s_%(id)s.%(ext)s'',
      quiet = False, no_warnings = False, progress = Some True\<rparr>"
  by (simp add: opciones_descarga_def formato_de_def dict_get_def formatos_def path_join_def
      plantilla_def)

text \<open>
  C5. After the bootstrap, the program started with one argument that is a valid URL does
  what a single download of it with destination \<open>descargas_twitter\<close> and quality \<open>best\<close>
  does, reading nothing from the input; where that directory can be made, the one call of
  the extraction has format \<open>best\<close> and the output template in \<open>descargas_twitter\<close>.
  Started with a first argument that is not a valid URL, it prints the usage line, calls the
  extraction not at all, reads nothing from the input and ends.
\<close>

theorem main_un_disparo:
  assumes "importable E \<or> pip_ok E"
  shows
    "(es_url_valida u \<longrightarrow>
        main E [prog, u] w =
          (case descargar_video E u ''descargas_twitter'' ''best'' (snd (instalar_ytdlp E w)) of
             (Inl e, w2) \<Rightarrow> (Inl e, w2)
           | (Inr r, w2) \<Rightarrow> (Inr (), w2)) \<and>
        entrada (snd (main E [prog, u] w)) = entrada w) \<and>
     (es_url_valida u \<and> mkdir (archivos w) (ruta_de ''descargas_twitter'') = Inr f' \<longrightarrow>
        extracciones (salida (snd (main E [prog, u] w))) =
          extracciones (salida w) @
          [\<lparr>opts = \<lparr>format = Some ''best'',
                    outtmpl = Some ''descargas_twitter/%(uploader)s_%(id)s.%(ext)s'',
                    quiet = False, no_warnings = False, progress = Some True\<rparr>,
            url = u, download = True\<rparr>]) \<and>
     (\<not> es_url_valida u \<longrightarrow>
        main E (prog # u # resto) w = (Inr (), imprime [MUso] (snd (instalar_ytdlp E w))) \<and>
        extracciones (salida (snd (main E (prog # u # resto) w))) = extracciones (salida w) \<and>
        entrada (snd (main E (prog # u # resto) w)) = entrada w)"
proof -
  obtain w1 where i: "instalar_ytdlp E w = (Inr True, w1)"
    using instalar_ok [OF assms, of w] by (cases "instalar_ytdlp E w") simp
  have e1: "entrada w1 = entrada w"
    using i by (auto simp: instalar_ytdlp_def Let_def imprime_def emite_def split: if_splits)
  have x1: "extracciones (salida w1) = extracciones (salida w)"
    using instalar_sin_extraer [of E w] i by simp
  have a1: "archivos w1 = archivos w"
    using instalar_archivos [of E w] i by simp
  have m: "es_url_valida u \<Longrightarrow> main E [prog, u] w =
          (case descargar_video E u ''descargas_twitter'' ''best'' w1 of
             (Inl e, w2) \<Rightarrow> (Inl e, w2)
           | (Inr r, w2) \<Rightarrow> (Inr (), w2))"
    using i by (simp add: main_def Let_def)
  have en: "es_url_valida u \<Longrightarrow> entrada (snd (main E [prog, u] w)) = entrada w"
    using entrada_descargar_video [of E u "''descargas_twitter''" "''best''" w1] e1
    by (cases "descargar_video E u ''descargas_twitter'' ''best'' w1")
       (auto simp: m split: sum.splits)
  have ex: "es_url_valida u \<Longrightarrow> mkdir (archivos w) (ruta_de ''descargas_twitter'') = Inr f' \<Longrightarrow>
        extracciones (salida (snd (main E [prog, u] w))) =
          extracciones (salida w) @
          [\<lparr>opts = opciones_descarga ''descargas_twitter'' ''best'', url = u, download = True\<rparr>]"
  proof -
    assume v: "es_url_valida u" and k: "mkdir (archivos w) (ruta_de ''descargas_twitter'') = Inr f'"
    from k a1 have k1: "mkdir (archivos w1) (ruta_de ''descargas_twitter'') = Inr f'" by simp
    show ?thesis
      by (simp add: m [OF v] descargar_video_ok [OF k1] Let_def x1
          split: sum.splits ydl_exc.splits)
  qed
  have inv: "\<not> es_url_valida u \<Longrightarrow>
      main E (prog # u # resto) w = (Inr (), imprime [MUso] w1)"
    using i by (simp add: main_def Let_def)
  show ?thesis
    using i m en ex inv e1 x1
    by (simp add: opciones_por_defecto imprime_def)
qed


lemma url_mala: "\<not> es_url_valida ''https://example.com/status/1''"
  by (simp add: es_url_valida_def patron_def Opc_def Mas_def es_digito_def)

theorem main_un_disparo_witness:
  "importable entorno_prueba \<and> es_url_valida url_a \<and>
   mkdir (archivos (mundo_de Map.empty [])) (ruta_de ''descargas_twitter'') =
     Inr [[''descargas_twitter''] \<mapsto> Carpeta] \<and>
   extracciones (salida (snd (main entorno_prueba [''twitter_downloader.py'', url_a]
       (mundo_de Map.empty [])))) =
     [\<lparr>opts = \<lparr>format = Some ''best'',
               outtmpl = Some ''descargas_twitter/%(uploader)s_%(id)s.%(ext)s'',
               quiet = False, no_warnings = False, progress = Some True\<rparr>,
       url = url_a, download = True\<rparr>] \<and>
   \<not> es_url_valida ''https://example.com/status/1'' \<and>
   main entorno_prueba [''twitter_downloader.py'', ''https://example.com/status/1'', ''videos'']
       (mundo_de Map.empty []) =
     (Inr (), \<lparr>archivos = Map.empty, entrada = [], salida = [Imprime MUso]\<rparr>)"
proof -
  have i: "importable entorno_prueba \<or> pip_ok entorno_prueba"
    by (simp add: entorno_prueba_def)
  have h: "mkdir (archivos (mundo_de Map.empty [])) (ruta_de ''descargas_twitter'') =
     Inr [[''descargas_twitter''] \<mapsto> Carpeta]"
    by (simp add: mundo_de_def ruta_ej1)
  have w1: "snd (instalar_ytdlp entorno_prueba (mundo_de Map.empty [])) = mundo_de Map.empty []"
    by (simp add: instalar_ytdlp_def entorno_prueba_def)
  note a = main_un_disparo [OF i, where u = url_a and prog = "''twitter_downloader.py''"
      and w = "mundo_de Map.empty []" and f' = "[[''descargas_twitter''] \<mapsto> Carpeta]"]
  note b = main_un_disparo [OF i, where u = "''https://example.com/status/1''"
      and prog = "''twitter_downloader.py''" and w = "mundo_de Map.empty []"
      and resto = "[''videos'']"]
  have x: "extracciones (salida (snd (main entorno_prueba [''twitter_downloader.py'', url_a]
       (mundo_de Map.empty [])))) =
     [\<lparr>opts = \<lparr>format = Some ''best'',
               outtmpl = Some ''descargas_twitter/%(uploader)s_%(id)s.%(ext)s'',
               quiet = False, no_warnings = False, progress = Some True\<rparr>,
       url = url_a, download = True\<rparr>]"
  proof -
    from a h url_a_valida have "extracciones (salida (snd (main entorno_prueba
        [''twitter_downloader.py'', url_a] (mundo_de Map.empty [])))) =
      extracciones (salida (mundo_de Map.empty [])) @
      [\<lparr>opts = \<lparr>format = Some ''best'',
               outtmpl = Some ''descargas_twitter/%(uploader)s_%(id)s.%(ext)s'',
               quiet = False, no_warnings = False, progress = Some True\<rparr>,
       url = url_a, download = True\<rparr>]"
      by blast
    then show ?thesis by (simp add: mundo_de_def)
  qed
  have y: "main entorno_prueba [''twitter_downloader.py'', ''https://example.com/status/1'', ''videos'']
       (mundo_de Map.empty []) =
     (Inr (), \<lparr>archivos = Map.empty, entrada = [], salida = [Imprime MUso]\<rparr>)"
  proof -
    from b url_mala have "main entorno_prueba
        [''twitter_downloader.py'', ''https://example.com/status/1'', ''videos'']
        (mundo_de Map.empty []) =
        (Inr (), imprime [MUso] (snd (instalar_ytdlp entorno_prueba (mundo_de Map.empty []))))"
      by blast
    then show ?thesis unfolding w1 by (simp add: mundo_de_def imprime_def)
  qed
  show ?thesis
    using h url_a_valida url_mala x y by (simp add: entorno_prueba_def)
qed

subsection \<open>The destination prompt of a single download\<close>

lemma strip_vacio: "strip s = [] \<longleftrightarrow> list_all es_espacio s"
proof -
  have "dropWhile es_espacio (rev (dropWhile es_espacio s)) = [] \<longleftrightarrow>
        dropWhile es_espacio s = []"
  proof
    assume a: "dropWhile es_espacio (rev (dropWhile es_espacio s)) = []"
    show "dropWhile es_espacio s = []"
    proof (rule ccontr)
      assume n: "dropWhile es_espacio s \<noteq> []"
      then have "\<not> es_espacio (hd (dropWhile es_espacio s))" by (rule hd_dropWhile)
      moreover from n have "hd (dropWhile es_espacio s) \<in> set (rev (dropWhile es_espacio s))"
        by simp
      ultimately show False using a by (auto simp: dropWhile_eq_Nil_conv)
    qed
  next
    assume d: "dropWhile es_espacio s = []"
    show "dropWhile es_espacio (rev (dropWhile es_espacio s)) = []"
      unfolding d by simp
  qed
  then show ?thesis
    by (simp add: strip_def dropWhile_eq_Nil_conv list_all_iff)
qed

text \<open>
  C10. In option 1 of the menu, after a valid URL and the quality answer, the third answer
  decides the destination: when it is empty or all whitespace the download goes to
  \<open>descargas_twitter\<close>, and otherwise to the answer with its surrounding whitespace removed.
  \<open>descargas_twitter\<close> is a directory of that name below the current one, not the current
  directory that the prompt (\<open>ACarpetaActual\<close>) announces.
\<close>

theorem carpeta_por_defecto:
  assumes "entrada w = lu # lc # ld # resto" and "es_url_valida (strip lu)"
  shows
    "opcion_1 E w =
       (case descargar_video E (strip lu)
               (if list_all es_espacio ld then ''descargas_twitter'' else strip ld)
               (calidad_de (strip lc))
               (w\<lparr>salida := salida w @ [Pregunta AUrl, Imprime MCalidadOpciones,
                                        Pregunta ACalidad, Pregunta ACarpetaActual],
                  entrada := resto\<rparr>) of
          (Inl e, w4) \<Rightarrow> (Inl e, w4)
        | (Inr r, w4) \<Rightarrow> (Inr Sigue, w4)) \<and>
     ruta_de ''descargas_twitter'' = [''descargas_twitter''] \<and> ruta_de ''.'' = []"
  using assms
  by (simp add: opcion_1_def py_input_def Let_def emite_def imprime_def o_bien_def strip_vacio
      ruta_ej1 ruta_de_def)


lemma strip_ej1: "strip ''  https://x.com/a/status/1 '' = url_a"
  by (simp add: strip_def es_espacio_def url_a_def)

lemma strip_ej2: "strip '' videos '' = ''videos''"
  by (simp add: strip_def es_espacio_def)

lemma strip_ej3: "strip ''2'' = ''2''"
  by (simp add: strip_def es_espacio_def)

lemma ruta_ej4: "ruta_de ''videos'' = [''videos'']"
  by (simp add: ruta_de_def)

lemma espacio_ej: "list_all es_espacio ''   ''" "\<not> list_all es_espacio '' videos ''"
  by (simp_all add: es_espacio_def)

theorem carpeta_por_defecto_witness:
  "entrada (mundo_de Map.empty [''  https://x.com/a/status/1 '', ''2'', ''   '', ''0'']) =
     [''  https://x.com/a/status/1 '', ''2'', ''   '', ''0''] \<and>
   es_url_valida (strip ''  https://x.com/a/status/1 '') \<and>
   extracciones (salida (snd (opcion_1 entorno_prueba
     (mundo_de Map.empty [''  https://x.com/a/status/1 '', ''2'', ''   '', ''0''])))) =
     [\<lparr>opts = opciones_descarga ''descargas_twitter'' ''720'', url = url_a, download = True\<rparr>] \<and>
   extracciones (salida (snd (opcion_1 entorno_prueba
     (mundo_de Map.empty [''  https://x.com/a/status/1 '', ''2'', '' videos '', ''0''])))) =
     [\<lparr>opts = opciones_descarga ''videos'' ''720'', url = url_a, download = True\<rparr>]"
proof -
  have e: "\<And>d. entrada (mundo_de Map.empty [''  https://x.com/a/status/1 '', ''2'', d, ''0'']) =
      ''  https://x.com/a/status/1 '' # ''2'' # d # [''0'']"
    by (simp add: mundo_de_def)
  have v: "es_url_valida (strip ''  https://x.com/a/status/1 '')"
    by (simp add: strip_ej1 url_a_valida)
  have q: "calidad_de (strip ''2'') = ''720''"
    by (simp add: strip_ej3 calidad_de_def dict_get_def calidades_def)
  have x1: "extracciones (salida (snd (opcion_1 entorno_prueba
     (mundo_de Map.empty [''  https://x.com/a/status/1 '', ''2'', ''   '', ''0''])))) =
     [\<lparr>opts = opciones_descarga ''descargas_twitter'' ''720'', url = url_a, download = True\<rparr>]"
    unfolding carpeta_por_defecto [OF e v, of entorno_prueba, THEN conjunct1]
    by (simp add: es_espacio_def q strip_ej1 descargar_video_def Let_def ruta_ej1
        entorno_prueba_def mundo_de_def imprime_def emite_def)
  have x2: "extracciones (salida (snd (opcion_1 entorno_prueba
     (mundo_de Map.empty [''  https://x.com/a/status/1 '', ''2'', '' videos '', ''0''])))) =
     [\<lparr>opts = opciones_descarga ''videos'' ''720'', url = url_a, download = True\<rparr>]"
    unfolding carpeta_por_defecto [OF e v, of entorno_prueba, THEN conjunct1]
    by (simp add: es_espacio_def q strip_ej1 strip_ej2 descargar_video_def Let_def ruta_ej4
        entorno_prueba_def mundo_de_def imprime_def emite_def)
  show ?thesis
    using v x1 x2 by (simp add: mundo_de_def)
qed

subsection \<open>The batch\<close>

lemma descargar_video_eventos:
  assumes "mkdir (archivos w) (ruta_de c) = Inr f'"
  shows "\<exists>r. descargar_video E u c q w =
     (Inr r, w\<lparr>archivos := f', salida := salida w @ eventos_descarga E u c q\<rparr>)"
  by (simp add: descargar_video_ok [OF assms] Let_def eventos_descarga_def peticion_descarga_def
      split: sum.splits ydl_exc.splits)

lemma descargar_lote_ok:
  assumes "mkdir (archivos w) (ruta_de c) = Inr f'"
  shows "descargar_lote E c n i us w =
     (Inr (), w\<lparr>archivos := (if us = [] then archivos w else f'),
                salida := salida w @ eventos_lote E c n i us\<rparr>)"
  using assms
proof (induction us arbitrary: w i)
  case Nil
  show ?case by simp
next
  case (Cons u us)
  let ?w0 = "imprime [MProgreso i n] w"
  from Cons.prems have m0: "mkdir (archivos ?w0) (ruta_de c) = Inr f'"
    by (simp add: imprime_def)
  from descargar_video_eventos [OF m0] obtain r where
    d: "descargar_video E u c ''best'' ?w0 =
        (Inr r, ?w0\<lparr>archivos := f', salida := salida ?w0 @ eventos_descarga E u c ''best''\<rparr>)"
    by blast
  let ?w1 = "?w0\<lparr>archivos := f', salida := salida ?w0 @ eventos_descarga E u c ''best''\<rparr>"
  have m1: "mkdir (archivos ?w1) (ruta_de c) = Inr f'"
    using mkdir_idempotente [OF Cons.prems] by simp
  show ?case
    by (simp add: d Cons.IH [OF m1]) (simp add: imprime_def)
qed

lemma recoger_lineas:
  assumes "entrada w = ls @ fin # resto"
    and "list_all (\<lambda>l. lower (strip l) \<noteq> ''listo'') ls"
    and "lower (strip fin) = ''listo''"
  shows "recoger urls w =
     (Inr (urls @ filter es_url_valida (map strip ls)),
      w\<lparr>salida := salida w @ eventos_recoger ls @ [Pregunta ALote], entrada := resto\<rparr>)"
  using assms
proof (induction ls arbitrary: urls w)
  case Nil
  then show ?case
    by (simp add: recoger.simps [of urls w] py_input_def emite_def)
next
  case (Cons l ls)
  let ?w1 = "w\<lparr>salida := salida w @ [Pregunta ALote], entrada := ls @ fin # resto\<rparr>"
  have p: "py_input ALote w = (Inr l, ?w1)"
    using Cons.prems(1) by (simp add: py_input_def emite_def)
  have n: "lower (strip l) \<noteq> ''listo''" and r: "list_all (\<lambda>l. lower (strip l) \<noteq> ''listo'') ls"
    using Cons.prems(2) by simp_all
  have e1: "entrada ?w1 = ls @ fin # resto" by simp
  have e2: "entrada (imprime [MOmitida] ?w1) = ls @ fin # resto" by simp
  show ?case
  proof (cases "es_url_valida (strip l)")
    case True
    with p n Cons.IH [OF e1 r Cons.prems(3), of "urls @ [strip l]"] show ?thesis
      by (simp add: recoger.simps [of urls w])
  next
    case False
    show ?thesis
    proof (cases "strip l = []")
      case True
      with False p n Cons.IH [OF e1 r Cons.prems(3), of urls] show ?thesis
        by (simp add: recoger.simps [of urls w])
    next
      case vacio: False
      with False p n Cons.IH [OF e2 r Cons.prems(3), of urls] show ?thesis
        by (simp add: recoger.simps [of urls w] imprime_def)
    qed
  qed
qed


lemma opcion_3_lote:
  assumes "entrada w = ls @ fin # d # resto"
    and "list_all (\<lambda>l. lower (strip l) \<noteq> ''listo'') ls"
    and "lower (strip fin) = ''listo''"
    and "mkdir (archivos w) (ruta_de (o_bien (strip d) ''descargas_twitter'')) = Inr f'"
    and "filter es_url_valida (map strip ls) \<noteq> []"
  shows "opcion_3 E w =
     (Inr Sigue,
      w\<lparr>archivos := f',
        salida := salida w @ [Imprime MIngresa] @ eventos_recoger ls @
          [Pregunta ALote, Pregunta ACarpetaLote,
           Imprime (MDescargandoN (length (filter es_url_valida (map strip ls))))] @
          eventos_lote E (o_bien (strip d) ''descargas_twitter'')
            (length (filter es_url_valida (map strip ls))) 1 (filter es_url_valida (map strip ls)),
        entrada := resto\<rparr>)"
proof -
  let ?urls = "filter es_url_valida (map strip ls)"
  let ?c = "o_bien (strip d) ''descargas_twitter''"
  let ?w0 = "imprime [MIngresa] w"
  let ?w1 = "?w0\<lparr>salida := salida ?w0 @ eventos_recoger ls @ [Pregunta ALote],
                 entrada := d # resto\<rparr>"
  let ?w2 = "?w1\<lparr>salida := salida ?w1 @ [Pregunta ACarpetaLote], entrada := resto\<rparr>"
  let ?w3 = "imprime [MDescargandoN (length ?urls)] ?w2"
  have e0: "entrada ?w0 = ls @ fin # d # resto" using assms(1) by simp
  have r: "recoger [] ?w0 = (Inr ?urls, ?w1)"
    using recoger_lineas [OF e0 assms(2,3), of "[]"] by simp
  have p: "py_input ACarpetaLote ?w1 = (Inr d, ?w2)"
    by (simp add: py_input_def emite_def)
  have m: "mkdir (archivos ?w3) (ruta_de ?c) = Inr f'"
    using assms(4) by (simp add: imprime_def)
  have l: "descargar_lote E ?c (length ?urls) 1 ?urls ?w3 =
      (Inr (), ?w3\<lparr>archivos := f', salida := salida ?w3 @ eventos_lote E ?c (length ?urls) 1 ?urls\<rparr>)"
    using descargar_lote_ok [OF m, of E "length ?urls" 1 ?urls] assms(5) by simp
  have "opcion_3 E w =
      (Inr Sigue, ?w3\<lparr>archivos := f', salida := salida ?w3 @ eventos_lote E ?c (length ?urls) 1 ?urls\<rparr>)"
    unfolding opcion_3_def r
    using assms(5) by (simp only: prod.case sum.case if_False Let_def p l)
  then show ?thesis
    by (simp add: imprime_def)
qed

lemma opcion_3_sin_urls:
  assumes "entrada w = ls @ fin # resto"
    and "list_all (\<lambda>l. lower (strip l) \<noteq> ''listo'') ls"
    and "lower (strip fin) = ''listo''"
    and "filter es_url_valida (map strip ls) = []"
  shows "opcion_3 E w =
     (Inr Sigue,
      w\<lparr>salida := salida w @ [Imprime MIngresa] @ eventos_recoger ls @
          [Pregunta ALote, Imprime MSinUrls],
        entrada := resto\<rparr>)"
proof -
  let ?w0 = "imprime [MIngresa] w"
  have e0: "entrada ?w0 = ls @ fin # resto" using assms(1) by simp
  show ?thesis
    unfolding opcion_3_def
    using recoger_lineas [OF e0 assms(2,3), of "[]"] assms(4)
    by (simp add: imprime_def)
qed

lemma marcas_descarga:
  "filter es_marca (eventos_descarga E u c q) = [Extrae (peticion_descarga u c q)]"
  by (simp add: eventos_descarga_def split: sum.splits ydl_exc.splits)

lemma marcas_lote:
  "filter es_marca (eventos_lote E c n i us) =
     concat (map (\<lambda>(j, u). [Imprime (MProgreso j n), Extrae (peticion_descarga u c ''best'')])
       (zip [i..<i + length us] us))"
proof (induction us arbitrary: i)
  case Nil
  show ?case by simp
next
  case (Cons u us)
  have "[i..<i + length (u # us)] = i # [Suc i..<Suc i + length us]"
    by (subst upt_rec) simp
  with Cons.IH [of "Suc i"] show ?case
    by (simp add: marcas_descarga)
qed

lemma marcas_recoger: "filter es_marca (eventos_recoger ls) = []"
  by (induction ls) simp_all

lemma omitidas_descarga: "filter (\<lambda>e. e = Imprime MOmitida) (eventos_descarga E u c q) = []"
  by (simp add: eventos_descarga_def split: sum.splits ydl_exc.splits)

lemma omitidas_lote: "filter (\<lambda>e. e = Imprime MOmitida) (eventos_lote E c n i us) = []"
  by (induction us arbitrary: i) (simp_all add: omitidas_descarga)

lemma omitidas_recoger:
  "length (filter (\<lambda>e. e = Imprime MOmitida) (eventos_recoger ls)) =
   length (filter (\<lambda>l. strip l \<noteq> [] \<and> \<not> es_url_valida (strip l)) ls)"
  by (induction ls) auto

text \<open>
  C4. Let the input of option 3 be lines none of which is the sentinel,
  then a line that is \<open>listo\<close> in some letter case, then the answer to the destination
  prompt, and let that destination be one that can be made. Then the option returns to the
  menu; the downloads are those of the lines that are valid URLs once stripped, one each and
  in the order of the input, each after its marker \<open>[i/n]\<close> with \<open>i\<close> counting from 1 and \<open>n\<close>
  their number; and the omitted notice is printed once for each line that, once stripped, is
  neither a valid URL nor empty, and not for a line that is empty or blank.
\<close>

theorem lote_descargas:
  assumes "entrada w = ls @ fin # d # resto"
    and "list_all (\<lambda>l. lower (strip l) \<noteq> ''listo'') ls"
    and "lower (strip fin) = ''listo''"
    and "mkdir (archivos w) (ruta_de (o_bien (strip d) ''descargas_twitter'')) = Inr f'"
  shows
    "(let urls = filter es_url_valida (map strip ls);
          n = length urls;
          c = o_bien (strip d) ''descargas_twitter''
      in fst (opcion_3 E w) = Inr Sigue \<and>
         filter es_marca (salida (snd (opcion_3 E w))) =
           filter es_marca (salida w) @
           concat (map (\<lambda>(i, u). [Imprime (MProgreso i n),
                                   Extrae \<lparr>opts = opciones_descarga c ''best'', url = u,
                                           download = True\<rparr>])
             (zip [1..<Suc n] urls)) \<and>
         length (filter (\<lambda>e. e = Imprime MOmitida) (salida (snd (opcion_3 E w)))) =
           length (filter (\<lambda>e. e = Imprime MOmitida) (salida w)) +
           length (filter (\<lambda>l. strip l \<noteq> [] \<and> \<not> es_url_valida (strip l)) ls))"
proof (cases "filter es_url_valida (map strip ls) = []")
  case True
  have e: "entrada w = ls @ fin # (d # resto)" using assms(1) by simp
  show ?thesis
    by (simp add: opcion_3_sin_urls [OF e assms(2,3) True] True Let_def marcas_recoger
        omitidas_recoger)
next
  case False
  show ?thesis
    by (simp add: opcion_3_lote [OF assms False] Let_def marcas_recoger marcas_lote
        omitidas_recoger omitidas_lote peticion_descarga_def)
qed

lemma strip_ej5: "strip ''no es url'' = ''no es url''"
  by (simp add: strip_def es_espacio_def)

lemma strip_ej6: "strip [] = []"
  by (simp add: strip_def)

lemma strip_ej7: "strip ''https://twitter.com/b/status/22'' = url_b"
  by (simp add: strip_def es_espacio_def url_b_def)

lemma strip_ej8: "strip ''LiStO'' = ''LiStO''" "strip ''listo'' = ''listo''"
  by (simp_all add: strip_def es_espacio_def)

lemma lower_ej: "lower ''LiStO'' = ''listo''" "lower ''listo'' = ''listo''"
  by (simp_all add: lower_def minuscula_def char_of_def bit_0)

lemma url_no: "\<not> es_url_valida ''no es url''" "\<not> es_url_valida []"
  by (simp_all add: es_url_valida_def patron_def Opc_def Mas_def es_digito_def)

lemma lower_url_a: "lower url_a \<noteq> ''listo''" "lower url_b \<noteq> ''listo''"
  by (simp_all add: lower_def url_a_def url_b_def minuscula_def)

lemma lower_ej2: "lower ''no es url'' \<noteq> ''listo''" "lower [] \<noteq> ''listo''"
  by (simp_all add: lower_def minuscula_def)

lemma urls_lote: "filter es_url_valida (map strip lineas_lote) = [url_a, url_b]"
  by (simp add: lineas_lote_def strip_ej1 strip_ej5 strip_ej6 strip_ej7 url_no url_a_valida
      url_b_valida)

lemma no_centinela_lote: "list_all (\<lambda>l. lower (strip l) \<noteq> ''listo'') lineas_lote"
  by (simp add: lineas_lote_def strip_ej1 strip_ej5 strip_ej6 strip_ej7 lower_url_a lower_ej2)

lemma omitidas_ej:
  "filter (\<lambda>l. strip l \<noteq> [] \<and> \<not> es_url_valida (strip l)) lineas_lote = [''no es url'']"
  by (simp add: lineas_lote_def strip_ej1 strip_ej5 strip_ej6 strip_ej7 url_no url_a_valida
      url_b_valida)

theorem lote_descargas_witness:
  "entrada (mundo_de Map.empty (lineas_lote @ ''LiStO'' # [] # [''0''])) =
     lineas_lote @ ''LiStO'' # [] # [''0''] \<and>
   list_all (\<lambda>l. lower (strip l) \<noteq> ''listo'') lineas_lote \<and>
   lower (strip ''LiStO'') = ''listo'' \<and>
   mkdir (archivos (mundo_de Map.empty (lineas_lote @ ''LiStO'' # [] # [''0''])))
     (ruta_de (o_bien (strip []) ''descargas_twitter'')) =
     Inr [[''descargas_twitter''] \<mapsto> Carpeta] \<and>
   fst (opcion_3 entorno_prueba (mundo_de Map.empty (lineas_lote @ ''LiStO'' # [] # [''0'']))) =
     Inr Sigue \<and>
   filter es_marca (salida (snd (opcion_3 entorno_prueba
       (mundo_de Map.empty (lineas_lote @ ''LiStO'' # [] # [''0''])))))  =
     [Imprime (MProgreso 1 2),
      Extrae \<lparr>opts = opciones_descarga ''descargas_twitter'' ''best'', url = url_a, download = True\<rparr>,
      Imprime (MProgreso 2 2),
      Extrae \<lparr>opts = opciones_descarga ''descargas_twitter'' ''best'', url = url_b, download = True\<rparr>] \<and>
   length (filter (\<lambda>e. e = Imprime MOmitida) (salida (snd (opcion_3 entorno_prueba
       (mundo_de Map.empty (lineas_lote @ ''LiStO'' # [] # [''0'']))))))  = 1"
proof -
  let ?w = "mundo_de Map.empty (lineas_lote @ ''LiStO'' # [] # [''0''])"
  have h1: "entrada ?w = lineas_lote @ ''LiStO'' # [] # [''0'']"
    by (simp add: mundo_de_def)
  have h3: "lower (strip ''LiStO'') = ''listo''"
    by (simp add: strip_ej8 lower_ej)
  have c: "o_bien (strip []) ''descargas_twitter'' = ''descargas_twitter''"
    by (simp add: strip_ej6 o_bien_def)
  have h4: "mkdir (archivos ?w) (ruta_de (o_bien (strip []) ''descargas_twitter'')) =
      Inr [[''descargas_twitter''] \<mapsto> Carpeta]"
    by (simp add: c ruta_ej1 mundo_de_def)
  have z: "[1..<Suc 2] = [1, 2]"
    by (simp add: upt_rec)
  have s0: "salida ?w = []"
    by (simp add: mundo_de_def)
  note t = lote_descargas [OF h1 no_centinela_lote h3 h4, of entorno_prueba,
      unfolded Let_def urls_lote c omitidas_ej s0]
  show ?thesis
    using h1 no_centinela_lote h3 h4 t by (simp add: z)
qed


lemma strip_url: "strip url_a = url_a" "strip url_b = url_b"
  by (simp_all add: strip_def es_espacio_def url_a_def url_b_def)

lemma mkdir_sobre_fichero: "mkdir disco_con_fichero (ruta_de ''notas.txt'') = Inl FileExistsError"
  by (simp add: ruta_ej3 disco_con_fichero_def is_dir_def)

text \<open>
  An empty line is not a valid URL and gets no omitted notice; and with two valid URLs
  collected and a destination that is a regular file, the first download leaves with
  \<^verbatim>\<open>FileExistsError\<close> before any extraction call, and the second is never tried.
\<close>

theorem lote_contraejemplo:
  "\<not> es_url_valida (strip []) \<and>
   filter (\<lambda>e. e = Imprime MOmitida)
     (salida (snd (opcion_3 entorno_prueba (mundo_de Map.empty [[], ''listo''])))) = [] \<and>
   es_url_valida (strip url_a) \<and> es_url_valida (strip url_b) \<and>
   fst (opcion_3 entorno_prueba
     (mundo_de disco_con_fichero [url_a, url_b, ''listo'', ''notas.txt''])) = Inl FileExistsError \<and>
   extracciones (salida (snd (opcion_3 entorno_prueba
     (mundo_de disco_con_fichero [url_a, url_b, ''listo'', ''notas.txt''])))) = []"
proof -
  have a: "filter (\<lambda>e. e = Imprime MOmitida)
     (salida (snd (opcion_3 entorno_prueba (mundo_de Map.empty [[], ''listo''])))) = []"
  proof -
    have e: "entrada (mundo_de Map.empty [[], ''listo'']) = [[]] @ ''listo'' # []"
      by (simp add: mundo_de_def)
    have n: "list_all (\<lambda>l. lower (strip l) \<noteq> ''listo'') [[]]"
      by (simp add: strip_ej6 lower_ej2)
    have f: "lower (strip ''listo'') = ''listo''"
      by (simp add: strip_ej8 lower_ej)
    have u: "filter es_url_valida (map strip [[]]) = []"
      by (simp add: strip_ej6 url_no)
    show ?thesis
      unfolding opcion_3_sin_urls [OF e n f u]
      by (simp add: strip_ej6 url_no mundo_de_def)
  qed
  let ?w = "mundo_de disco_con_fichero [url_a, url_b, ''listo'', ''notas.txt'']"
  have e: "entrada (imprime [MIngresa] ?w) = [url_a, url_b] @ ''listo'' # [''notas.txt'']"
    by (simp add: mundo_de_def)
  have n: "list_all (\<lambda>l. lower (strip l) \<noteq> ''listo'') [url_a, url_b]"
    by (simp add: strip_url lower_url_a)
  have f: "lower (strip ''listo'') = ''listo''"
    by (simp add: strip_ej8 lower_ej)
  have s: "strip ''notas.txt'' = ''notas.txt''"
    by (simp add: strip_def es_espacio_def)
  have b: "opcion_3 entorno_prueba ?w =
      (Inl FileExistsError,
       \<lparr>archivos = disco_con_fichero, entrada = [],
        salida = [Imprime MIngresa, Pregunta ALote, Pregunta ALote, Pregunta ALote,
                  Pregunta ACarpetaLote, Imprime (MDescargandoN 2), Imprime (MProgreso 1 2)]\<rparr>)"
    unfolding opcion_3_def recoger_lineas [OF e n f, of "[]"]
    by (simp add: strip_url url_a_valida url_b_valida py_input_def emite_def imprime_def s
        o_bien_def mundo_de_def descargar_video_def mkdir_sobre_fichero)
  show ?thesis
    using a by (simp add: b strip_ej6 url_no strip_url url_a_valida url_b_valida)
qed

subsection \<open>The quality of a batch\<close>

lemma formato_best: "formato_de ''best'' = ''best''"
  by (simp add: formato_de_def dict_get_def formatos_def)

lemma otra_descargar_video:
  "filter otra_calidad (salida (snd (descargar_video E u c ''best'' w))) =
   filter otra_calidad (salida w)"
  by (simp add: descargar_video_def Let_def imprime_def emite_def opciones_descarga_def
      formato_best split: sum.splits ydl_exc.splits)

lemma otra_descargar_lote:
  "filter otra_calidad (salida (snd (descargar_lote E c n i us w))) =
   filter otra_calidad (salida w)"
proof (induction us arbitrary: i w)
  case Nil
  show ?case by simp
next
  case (Cons u us)
  obtain r w1 where d: "descargar_video E u c ''best'' (imprime [MProgreso i n] w) = (r, w1)"
    by (cases "descargar_video E u c ''best'' (imprime [MProgreso i n] w)")
  have "filter otra_calidad (salida w1) = filter otra_calidad (salida w)"
    using otra_descargar_video [of E u c "imprime [MProgreso i n] w"] d
    by (simp add: imprime_def)
  with d Cons.IH [of "Suc i" w1] show ?case
    by (cases r) simp_all
qed

lemma otra_py_input:
  "filter otra_calidad (salida (snd (py_input a w))) = filter otra_calidad (salida w)"
  by (simp add: py_input_def emite_def split: list.splits)

lemma otra_recoger:
  "filter otra_calidad (salida (snd (recoger urls w))) = filter otra_calidad (salida w)"
proof (induction urls w rule: recoger.induct)
  case (1 urls w)
  obtain r w1 where p: "py_input ALote w = (r, w1)" by (cases "py_input ALote w")
  have s: "filter otra_calidad (salida w1) = filter otra_calidad (salida w)"
    using otra_py_input [of ALote w] p by simp
  show ?case
  proof (cases r)
    case (Inl e)
    with p s show ?thesis by (simp add: recoger.simps [of urls w])
  next
    case (Inr l)
    note ih = "1.IH" [OF p [unfolded Inr, symmetric] refl refl]
    show ?thesis
      using p Inr s ih
      by (auto simp: recoger.simps [of urls w] Let_def imprime_def)
  qed
qed

lemma otra_opcion_3:
  "filter otra_calidad (salida (snd (opcion_3 E w))) = filter otra_calidad (salida w)"
proof -
  obtain r1 w1 where r: "recoger [] (imprime [MIngresa] w) = (r1, w1)"
    by (cases "recoger [] (imprime [MIngresa] w)")
  have s1: "filter otra_calidad (salida w1) = filter otra_calidad (salida w)"
    using otra_recoger [of "[]" "imprime [MIngresa] w"] r by (simp add: imprime_def)
  show ?thesis
  proof (cases r1)
    case (Inl e)
    with r s1 show ?thesis by (simp add: opcion_3_def)
  next
    case (Inr urls)
    obtain r2 w2 where p: "py_input ACarpetaLote w1 = (r2, w2)"
      by (cases "py_input ACarpetaLote w1")
    have s2: "filter otra_calidad (salida w2) = filter otra_calidad (salida w)"
      using otra_py_input [of ACarpetaLote w1] p s1 by simp
    show ?thesis
    proof (cases r2)
      case (Inl e)
      with r Inr p s1 s2 show ?thesis by (simp add: opcion_3_def imprime_def)
    next
      case ld: (Inr d)
      let ?c = "o_bien (strip d) ''descargas_twitter''"
      let ?w3 = "imprime [MDescargandoN (length urls)] w2"
      obtain r3 w3 where l: "descargar_lote E ?c (length urls) 1 urls ?w3 = (r3, w3)"
        by (cases "descargar_lote E ?c (length urls) 1 urls ?w3")
      have s3: "filter otra_calidad (salida w3) = filter otra_calidad (salida w)"
        using otra_descargar_lote [of E ?c "length urls" 1 urls ?w3] l s2
        by (simp add: imprime_def)
      show ?thesis
        unfolding opcion_3_def r
        using Inr p ld l s1 s3
        by (simp only: prod.case sum.case Let_def split: if_splits sum.splits)
           (auto simp: imprime_def)
    qed
  qed
qed

lemma calidad_eventos_descarga:
  "filter es_calidad (eventos_descarga E u c q) =
     [Imprime (MCalidad q), Extrae (peticion_descarga u c q)]"
  by (simp add: eventos_descarga_def split: sum.splits ydl_exc.splits)

lemma calidad_eventos_lote:
  "filter es_calidad (eventos_lote E c n i us) =
     concat (map (\<lambda>u. [Imprime (MCalidad ''best''), Extrae (peticion_descarga u c ''best'')]) us)"
  by (induction us arbitrary: i) (simp_all add: calidad_eventos_descarga)

text \<open>
  C9. Whatever has happened in the session, option 3 adds no event whose quality is other
  than \<open>best\<close>: it asks for no quality and passes none on. And where the destination can be
  made, the loop of the batch announces and requests quality \<open>best\<close> for every collected
  URL, in order.
\<close>

theorem lote_siempre_best:
  "filter otra_calidad (salida (snd (opcion_3 E w))) = filter otra_calidad (salida w) \<and>
   (mkdir (archivos w) (ruta_de c) = Inr f' \<longrightarrow>
      filter es_calidad (salida (snd (descargar_lote E c n i us w))) =
        filter es_calidad (salida w) @
        concat (map (\<lambda>u. [Imprime (MCalidad ''best''),
                           Extrae \<lparr>opts = \<lparr>format = Some ''best'',
                                            outtmpl = Some (path_join c plantilla),
                                            quiet = False, no_warnings = False,
                                            progress = Some True\<rparr>,
                                   url = u, download = True\<rparr>]) us))"
proof (intro conjI impI)
  show "filter otra_calidad (salida (snd (opcion_3 E w))) = filter otra_calidad (salida w)"
    by (rule otra_opcion_3)
next
  assume m: "mkdir (archivos w) (ruta_de c) = Inr f'"
  show "filter es_calidad (salida (snd (descargar_lote E c n i us w))) =
        filter es_calidad (salida w) @
        concat (map (\<lambda>u. [Imprime (MCalidad ''best''),
                           Extrae \<lparr>opts = \<lparr>format = Some ''best'',
                                            outtmpl = Some (path_join c plantilla),
                                            quiet = False, no_warnings = False,
                                            progress = Some True\<rparr>,
                                   url = u, download = True\<rparr>]) us)"
    by (simp add: descargar_lote_ok [OF m] calidad_eventos_lote peticion_descarga_def
        opciones_descarga_def formato_best)
qed


theorem lote_siempre_best_witness:
  "mkdir (archivos mundo_tras_720) (ruta_de ''descargas_twitter'') =
     Inr [[''descargas_twitter''] \<mapsto> Carpeta] \<and>
   filter otra_calidad (salida (snd (opcion_3 entorno_prueba mundo_tras_720))) =
     [Imprime (MCalidad ''720'')] \<and>
   filter es_calidad (salida (snd (descargar_lote entorno_prueba ''descargas_twitter'' 2 1
       [url_a, url_b] mundo_tras_720))) =
     [Imprime (MCalidad ''720''),
      Imprime (MCalidad ''best''),
      Extrae \<lparr>opts = \<lparr>format = Some ''best'',
                       outtmpl = Some ''descargas_twitter/%(uploader)s_%(id)s.%(ext)s'',
                       quiet = False, no_warnings = False, progress = Some True\<rparr>,
              url = url_a, download = True\<rparr>,
      Imprime (MCalidad ''best''),
      Extrae \<lparr>opts = \<lparr>format = Some ''best'',
                       outtmpl = Some ''descargas_twitter/%(uploader)s_%(id)s.%(ext)s'',
                       quiet = False, no_warnings = False, progress = Some True\<rparr>,
              url = url_b, download = True\<rparr>]"
proof -
  have h: "mkdir (archivos mundo_tras_720) (ruta_de ''descargas_twitter'') =
     Inr [[''descargas_twitter''] \<mapsto> Carpeta]"
    by (simp add: mundo_tras_720_def ruta_ej1)
  have j: "path_join ''descargas_twitter'' plantilla =
      ''descargas_twitter/%(uploader)s_%(id)s.%(ext)s''"
    by (simp add: path_join_def plantilla_def)
  have s: "filter otra_calidad (salida mundo_tras_720) = [Imprime (MCalidad ''720'')]"
      "filter es_calidad (salida mundo_tras_720) = [Imprime (MCalidad ''720'')]"
    by (simp_all add: mundo_tras_720_def)
  note t = lote_siempre_best [of entorno_prueba mundo_tras_720 "''descargas_twitter''"
      "[[''descargas_twitter''] \<mapsto> Carpeta]" 2 1 "[url_a, url_b]", unfolded s j]
  from t h show ?thesis by simp
qed

subsection \<open>Errors and the menu loop\<close>

lemma archivos_emite [simp]: "archivos (emite e w) = archivos w"
  by (simp add: emite_def)

lemma archivos_imprime [simp]: "archivos (imprime ms w) = archivos w"
  by (simp add: imprime_def)




lemma archivos_obtener_info [simp]: "archivos (snd (obtener_info E u w)) = archivos w"
  by (simp add: obtener_info_def Let_def split: sum.splits)

























end
